theory Spec2Isabelle
  imports Complex_Main
begin

section \<open>NumPy arrays\<close>

text \<open>
  The program works on NumPy arrays of double-precision floats. A float is idealised as a
  real number: rounding, overflow and the special values \<open>inf\<close> and \<open>nan\<close> are outside the
  model, so the theorems of the last section are stated in a way that does not rest on the
  value HOL gives to \<open>x / 0\<close> or \<open>ln 0\<close>.

  A one-dimensional array is a list. A two-dimensional array is the list of its rows
  together with its column count, so that the shape \<open>(0, c)\<close> keeps its \<open>c\<close>.
\<close>

datatype ndarray = NDArray (ncols: nat) (arows: "real list list")

definition nrows :: "ndarray \<Rightarrow> nat" where
  "nrows S = length (arows S)"

text \<open>Every NumPy array is rectangular.\<close>

definition wf_ndarray :: "ndarray \<Rightarrow> bool" where
  "wf_ndarray S = list_all (\<lambda>r. length r = ncols S) (arows S)"

text \<open>\<^verbatim>\<open>np.transpose(S)\<close> of a two-dimensional array.\<close>

definition transpose_nd :: "ndarray \<Rightarrow> ndarray" where
  "transpose_nd S = NDArray (nrows S) (map (\<lambda>j. map (\<lambda>r. r ! j) (arows S)) [0..<ncols S])"

text \<open>An elementwise unary operation (\<^verbatim>\<open>S**2\<close>, \<^verbatim>\<open>np.abs\<close>, \<^verbatim>\<open>np.sqrt\<close>, \<^verbatim>\<open>np.log\<close>).\<close>

definition nd_map :: "(real \<Rightarrow> real) \<Rightarrow> ndarray \<Rightarrow> ndarray" where
  "nd_map f S = NDArray (ncols S) (map (map f) (arows S))"

text \<open>
  An elementwise binary operation on two arrays of the same shape (every binary operation
  of the program is between arrays of one shape, so no broadcasting takes place).
\<close>

definition nd_zip :: "(real \<Rightarrow> real \<Rightarrow> real) \<Rightarrow> ndarray \<Rightarrow> ndarray \<Rightarrow> ndarray" where
  "nd_zip f A B = NDArray (ncols A) (map2 (map2 f) (arows A) (arows B))"

text \<open>\<^verbatim>\<open>np.sum(S, axis=0)\<close>: one sum per column, a one-dimensional array.\<close>

definition sum_axis0 :: "ndarray \<Rightarrow> real list" where
  "sum_axis0 S = map (\<lambda>j. sum_list (map (\<lambda>r. r ! j) (arows S))) [0..<ncols S]"

text \<open>\<^verbatim>\<open>np.diff(S, n=1, axis=0)\<close>, which NumPy computes as \<^verbatim>\<open>S[1:] - S[:-1]\<close>.\<close>

definition diff_axis0 :: "ndarray \<Rightarrow> ndarray" where
  "diff_axis0 S = NDArray (ncols S) (map2 (map2 (-)) (tl (arows S)) (butlast (arows S)))"

text \<open>\<^verbatim>\<open>v[:, np.newaxis]\<close>: a one-dimensional array of length \<open>c\<close> becomes a \<open>(c, 1)\<close> array.\<close>

definition newaxis :: "real list \<Rightarrow> ndarray" where
  "newaxis v = NDArray 1 (map (\<lambda>a. [a]) v)"

text \<open>\<^verbatim>\<open>np.concatenate(As, axis=0)\<close> of arrays with one column count.\<close>

definition concatenate0 :: "ndarray list \<Rightarrow> ndarray" where
  "concatenate0 As = NDArray (case As of [] \<Rightarrow> 0 | A # _ \<Rightarrow> ncols A) (concat (map arows As))"

text \<open>\<^verbatim>\<open>S.flatten()\<close>: the entries in row-major order.\<close>

definition flatten :: "ndarray \<Rightarrow> real list" where
  "flatten S = concat (arows S)"

section \<open>The moment extractor \<^verbatim>\<open>KSM1\<close>\<close>

text \<open>Lines 105 to 109: a window with more columns than rows is transposed.\<close>

definition orient :: "ndarray \<Rightarrow> ndarray" where
  "orient S = (if ncols S > nrows S then transpose_nd S else S)"

text \<open>
  The quantities of lines 112 to 134, each a \<open>(channels, 1)\<close> array, as functions of the
  window \<open>S\<close> after the orientation step. \<open>samples\<close> is \<open>nrows S\<close>, a Python integer, so
  \<open>samples - 1\<close> is \<open>-1\<close> on a window without rows.
\<close>

definition root_moment :: "real \<Rightarrow> real" where
  "root_moment v = v powr 0.1 / 0.1"

definition m0_of :: "ndarray \<Rightarrow> ndarray" where
  "m0_of S = nd_map root_moment (newaxis (map sqrt (sum_axis0 (nd_map (\<lambda>v. v\<^sup>2) S))))"

definition d1_of :: "ndarray \<Rightarrow> ndarray" where
  "d1_of S = diff_axis0 S"

definition d2_of :: "ndarray \<Rightarrow> ndarray" where
  "d2_of S = diff_axis0 (d1_of S)"

definition m2_of :: "ndarray \<Rightarrow> ndarray" where
  "m2_of S = nd_map root_moment
     (newaxis (map (\<lambda>v. sqrt (v / of_int (int (nrows S) - 1)))
                   (sum_axis0 (nd_map (\<lambda>v. v\<^sup>2) (d1_of S)))))"

definition m4_of :: "ndarray \<Rightarrow> ndarray" where
  "m4_of S = nd_map root_moment
     (newaxis (map (\<lambda>v. sqrt (v / of_int (int (nrows S) - 1)))
                   (sum_axis0 (nd_map (\<lambda>v. v\<^sup>2) (d2_of S)))))"

text \<open>The divisor of the sparseness, \<^verbatim>\<open>np.sqrt(np.abs((m0-m2)*(m0-m4)))\<close>.\<close>

definition sparsi_divisor :: "ndarray \<Rightarrow> ndarray" where
  "sparsi_divisor S =
     nd_map sqrt (nd_map abs (nd_zip (*) (nd_zip (-) (m0_of S) (m2_of S))
                                          (nd_zip (-) (m0_of S) (m4_of S))))"

definition sparsi_of :: "ndarray \<Rightarrow> ndarray" where
  "sparsi_of S = nd_zip (/) (m0_of S) (sparsi_divisor S)"

text \<open>The divisor of the irregularity factor, \<^verbatim>\<open>np.sqrt(np.multiply(m0,m4))\<close>.\<close>

definition IRF_divisor :: "ndarray \<Rightarrow> ndarray" where
  "IRF_divisor S = nd_map sqrt (nd_zip (*) (m0_of S) (m4_of S))"

definition IRF_of :: "ndarray \<Rightarrow> ndarray" where
  "IRF_of S = nd_zip (/) (m2_of S) (IRF_divisor S)"

definition WLR_of :: "ndarray \<Rightarrow> ndarray" where
  "WLR_of S = newaxis (map2 (-) (sum_axis0 (nd_map abs (d1_of S)))
                                 (sum_axis0 (nd_map abs (d2_of S))))"

definition KSM1 :: "ndarray \<Rightarrow> real list" where
  "KSM1 S0 =
     (let S = orient S0;
          Feat = concatenate0
            [m0_of S, nd_zip (-) (m0_of S) (m2_of S), nd_zip (-) (m0_of S) (m4_of S),
             sparsi_of S, IRF_of S, WLR_of S]
      in flatten (nd_map (\<lambda>v. ln \<bar>v\<bar>) Feat))"

section \<open>The windower \<^verbatim>\<open>getTDPSDfeatv3\<close>\<close>

text \<open>
  Arrays are mutable objects, so they live in a heap: a list of arrays, an address being an
  index into it. Allocation appends; a write replaces the array at its address.
\<close>

type_synonym addr = nat
type_synonym heap = "ndarray list"

definition alloc :: "ndarray \<Rightarrow> heap \<Rightarrow> addr \<times> heap" where
  "alloc A h = (length h, h @ [A])"

datatype error = TypeError | ZeroDivisionError | OverflowError | ValueError | IndexError

text \<open>\<^verbatim>\<open>np.zeros((r, c))\<close>.\<close>

definition zeros :: "nat \<Rightarrow> nat \<Rightarrow> ndarray" where
  "zeros r c = NDArray c (replicate r (replicate c 0))"

text \<open>
  \<^verbatim>\<open>np.spacing(1)\<close>: the distance from \<open>1.0\<close> to the next larger double, \<open>2\<^sup>-\<^sup>5\<^sup>2\<close>.
\<close>

definition spacing_1 :: real where
  "spacing_1 = 1 / 2 ^ 52"

text \<open>
  Python's slice \<^verbatim>\<open>x[st:en, :]\<close>: a negative bound counts from the end, and both bounds are
  clipped to the row count; the slice is empty when the stop is not beyond the start.
\<close>

definition slice_bound :: "nat \<Rightarrow> int \<Rightarrow> nat" where
  "slice_bound n k = (if k < 0 then nat (max 0 (int n + k)) else min n (nat k))"

definition slice_rows :: "ndarray \<Rightarrow> int \<Rightarrow> int \<Rightarrow> ndarray" where
  "slice_rows S st en =
     (let lo = slice_bound (nrows S) st; hi = slice_bound (nrows S) en
      in NDArray (ncols S) (take (hi - lo) (drop lo (arows S))))"

text \<open>Lines 73 to 81: the feature vector \<^verbatim>\<open>num - den\<close> of one window.\<close>

definition window_features :: "ndarray \<Rightarrow> real list" where
  "window_features curwin =
     (let ebp = KSM1 curwin;
          efp = KSM1 (nd_map (\<lambda>v. ln (v\<^sup>2 + spacing_1)) curwin);
          num = map (\<lambda>v. - 2 * v) (map2 (*) efp ebp);
          den = map2 (+) (map2 (*) efp efp) (map2 (*) ebp ebp)
      in map2 (-) num den)"

text \<open>
  The assignment \<^verbatim>\<open>feat[i,:] = v\<close>: \<open>v\<close> must have the length of the row or the length one
  (which NumPy broadcasts along the row); any other length raises \<^verbatim>\<open>ValueError\<close>.
\<close>

definition assign_row :: "ndarray \<Rightarrow> nat \<Rightarrow> real list \<Rightarrow> error + ndarray" where
  "assign_row F i v =
     (if nrows F \<le> i then Inl IndexError
      else if length v = ncols F then Inr (NDArray (ncols F) ((arows F)[i := v]))
      else if length v = 1 then Inr (NDArray (ncols F) ((arows F)[i := replicate (ncols F) (hd v)]))
      else Inl ValueError)"

text \<open>
  The loop of lines 68 to 83, \<^verbatim>\<open>for i in range(numwin)\<close>: the first argument counts the
  iterations that remain, \<open>i\<close> is the loop variable, \<open>x\<close> and \<open>feat\<close> are addresses.
\<close>

fun window_loop ::
  "nat \<Rightarrow> nat \<Rightarrow> int \<Rightarrow> int \<Rightarrow> int \<Rightarrow> addr \<Rightarrow> addr \<Rightarrow> heap \<Rightarrow> (error + unit) \<times> heap" where
  "window_loop 0 i st en wininc x feat h = (Inr (), h)"
| "window_loop (Suc k) i st en wininc x feat h =
     (let curwin = slice_rows (h ! x) st en
      in case assign_row (h ! feat) i (window_features curwin) of
           Inl e \<Rightarrow> (Inl e, h)
         | Inr F \<Rightarrow> window_loop k (Suc i) (st + wininc) (en + wininc) wininc x feat (h[feat := F]))"

text \<open>
  Line 59, \<^verbatim>\<open>np.int(np.floor((datasize - winsize)/wininc)+1)\<close>, for the Python integers
  \<open>a = datasize - winsize\<close> and \<open>b = wininc\<close> (\<^verbatim>\<open>np.int\<close> is Python's \<^verbatim>\<open>int\<close>). The division
  raises on a zero divisor. Otherwise \<^verbatim>\<open>a / b\<close> is a double, the one nearest to the exact
  quotient, and the floor and the increment are taken on doubles. While \<open>\<bar>a\<bar>\<close> and \<open>\<bar>b\<bar>\<close> are
  below \<open>2\<^sup>5\<^sup>3\<close> the floor of that double is the floor of the exact quotient and the
  increment is exact. Beyond that bound the result depends on the rounding of the quotient,
  which is not modelled: it is the parameter \<open>dq\<close>, the count that the double computation
  gives, or \<open>None\<close> where the division raises \<^verbatim>\<open>OverflowError\<close>.
\<close>

definition window_count :: "(int \<Rightarrow> int \<Rightarrow> int option) \<Rightarrow> int \<Rightarrow> int \<Rightarrow> error + int" where
  "window_count dq a b =
     (if b = 0 then Inl ZeroDivisionError
      else if \<bar>a\<bar> < 2 ^ 53 \<and> \<bar>b\<bar> < 2 ^ 53 then Inr (a div b + 1)
      else case dq a b of None \<Rightarrow> Inl OverflowError | Some n \<Rightarrow> Inr n)"

text \<open>
  \<^verbatim>\<open>getTDPSDfeatv3(x, *slidingParams)\<close>. The caller's array is at address \<open>x0\<close>;
  \<^verbatim>\<open>np.array(x)\<close> copies it. The parameters are Python integers. \<^verbatim>\<open>np.zeros\<close> raises
  \<^verbatim>\<open>ValueError\<close> on a negative row count.
\<close>

definition getTDPSDfeatv3 ::
  "(int \<Rightarrow> int \<Rightarrow> int option) \<Rightarrow> addr \<Rightarrow> int list \<Rightarrow> heap \<Rightarrow> (error + addr) \<times> heap" where
  "getTDPSDfeatv3 dq x0 slidingParams h0 =
     (let (x, h1) = alloc (h0 ! x0) h0
      in if length slidingParams < 2 then (Inl TypeError, h1)
         else
           let winsize = slidingParams ! 0;
               wininc = slidingParams ! 1;
               datasize = nrows (h1 ! x);
               Nsignals = ncols (h1 ! x)
           in case window_count dq (int datasize - winsize) wininc of
                Inl e \<Rightarrow> (Inl e, h1)
              | Inr numwin \<Rightarrow>
                  let NFPC = 6
                  in if numwin < 0 then (Inl ValueError, h1)
                     else
                       let (feat, h2) = alloc (zeros (nat numwin) (Nsignals * NFPC)) h1
                       in case window_loop (nat numwin) 0 0 winsize wininc x feat h2 of
                            (Inl e, h3) \<Rightarrow> (Inl e, h3)
                          | (Inr u, h3) \<Rightarrow> (Inr feat, h3))"

text \<open>What a call hands back to its caller: the error, or the array at the returned address.\<close>

definition returned :: "(error + addr) \<times> heap \<Rightarrow> error + ndarray" where
  "returned r = (case r of (Inl e, h) \<Rightarrow> Inl e | (Inr a, h) \<Rightarrow> Inr (h ! a))"

text \<open>A \<open>(c, 1)\<close> array: the shape of every per-channel quantity of \<^verbatim>\<open>KSM1\<close>.\<close>

definition is_column :: "nat \<Rightarrow> ndarray \<Rightarrow> bool" where
  "is_column c A = (A = newaxis (flatten A) \<and> length (flatten A) = c)"

text \<open>
  The second and fourth moments in the words of the specification, for channel \<open>c\<close> of a
  window \<open>S\<close> of \<open>samples\<close> rows: the sum of the squared first (second) differences along
  time, divided by \<open>samples - 1\<close> in both cases, under the root, raised to \<open>0.1\<close> and
  divided by \<open>0.1\<close>.
\<close>

definition m2_spec :: "ndarray \<Rightarrow> nat \<Rightarrow> real" where
  "m2_spec S c =
     (sqrt ((\<Sum>t = 0..<nrows S - 1. (arows S ! Suc t ! c - arows S ! t ! c)\<^sup>2)
            / (real (nrows S) - 1))) powr 0.1 / 0.1"

definition m4_spec :: "ndarray \<Rightarrow> nat \<Rightarrow> real" where
  "m4_spec S c =
     (sqrt ((\<Sum>t = 0..<nrows S - 2.
               ((arows S ! Suc (Suc t) ! c - arows S ! Suc t ! c)
                 - (arows S ! Suc t ! c - arows S ! t ! c))\<^sup>2)
            / (real (nrows S) - 1))) powr 0.1 / 0.1"

section \<open>Shapes\<close>


lemma nrows_simps:
  "nrows (NDArray c rs) = length rs"
  "nrows (nd_map f S) = nrows S"
  "nrows (transpose_nd S) = ncols S"
  "nrows (diff_axis0 S) = nrows S - 1"
  "nrows (newaxis v) = length v"
  "nrows (zeros r c) = r"
  by (simp_all add: nrows_def nd_map_def transpose_nd_def diff_axis0_def newaxis_def zeros_def)

lemma ncols_simps:
  "ncols (nd_map f S) = ncols S"
  "ncols (transpose_nd S) = nrows S"
  "ncols (diff_axis0 S) = ncols S"
  "ncols (newaxis v) = 1"
  "ncols (zeros r c) = c"
  "ncols (nd_zip g A B) = ncols A"
  by (simp_all add: nrows_def nd_map_def transpose_nd_def diff_axis0_def newaxis_def zeros_def nd_zip_def)

lemma length_sum_axis0: "length (sum_axis0 S) = ncols S"
  by (simp add: sum_axis0_def)

lemma nd_map_newaxis: "nd_map f (newaxis v) = newaxis (map f v)"
  by (simp add: nd_map_def newaxis_def)

lemma nd_zip_newaxis: "nd_zip f (newaxis a) (newaxis b) = newaxis (map2 f a b)"
  by (auto simp add: nd_zip_def newaxis_def zip_map_map)

lemma flatten_newaxis: "flatten (newaxis v) = v"
  by (induction v) (simp_all add: flatten_def newaxis_def)

lemma concatenate0_newaxis:
  "concatenate0 [newaxis a, newaxis b, newaxis c, newaxis d, newaxis e, newaxis f]
     = newaxis (a @ b @ c @ d @ e @ f)"
  by (simp add: concatenate0_def newaxis_def)

lemma wf_transpose: "wf_ndarray (transpose_nd S)"
  by (simp add: wf_ndarray_def transpose_nd_def list_all_iff nrows_def)

lemma wf_orient: "wf_ndarray S \<Longrightarrow> wf_ndarray (orient S)"
  by (simp add: orient_def wf_transpose)

lemma wf_nd_map: "wf_ndarray S \<Longrightarrow> wf_ndarray (nd_map f S)"
  by (simp add: wf_ndarray_def nd_map_def list_all_iff)

lemma wf_diff: "wf_ndarray S \<Longrightarrow> wf_ndarray (diff_axis0 S)"
proof -
  assume w: "wf_ndarray S"
  have "length (map2 (-) a b) = ncols S"
    if "(a, b) \<in> set (zip (tl (arows S)) (butlast (arows S)))" for a b
  proof -
    have "a \<in> set (tl (arows S))" using that by (rule set_zip_leftD)
    then have "a \<in> set (arows S)" by (cases "arows S") simp_all
    moreover have "b \<in> set (arows S)" using that by (meson set_zip_rightD in_set_butlastD)
    ultimately show ?thesis using w by (simp add: wf_ndarray_def list_all_iff)
  qed
  then show ?thesis by (auto simp add: wf_ndarray_def diff_axis0_def list_all_iff)
qed



lemma is_column_newaxis: "length v = c \<Longrightarrow> is_column c (newaxis v)"
  by (simp add: is_column_def flatten_newaxis)

lemma is_column_nd_map: "is_column c A \<Longrightarrow> is_column c (nd_map f A)"
  by (metis is_column_def is_column_newaxis length_map nd_map_newaxis)

lemma is_column_nd_zip: "is_column c A \<Longrightarrow> is_column c B \<Longrightarrow> is_column c (nd_zip f A B)"
  by (metis (no_types, lifting) is_column_def is_column_newaxis length_map length_zip min.idem nd_zip_newaxis)

lemma is_column_m0: "is_column (ncols S) (m0_of S)"
  by (simp add: m0_of_def is_column_nd_map is_column_newaxis length_sum_axis0 ncols_simps)

lemma is_column_m2: "is_column (ncols S) (m2_of S)"
  by (simp add: m2_of_def d1_of_def is_column_nd_map is_column_newaxis length_sum_axis0 ncols_simps)

lemma is_column_m4: "is_column (ncols S) (m4_of S)"
  by (simp add: m4_of_def d1_of_def d2_of_def is_column_nd_map is_column_newaxis length_sum_axis0 ncols_simps)

lemma is_column_sparsi: "is_column (ncols S) (sparsi_of S)"
  by (simp add: sparsi_of_def sparsi_divisor_def is_column_nd_map is_column_nd_zip is_column_m0 is_column_m2 is_column_m4)

lemma is_column_IRF: "is_column (ncols S) (IRF_of S)"
  by (simp add: IRF_of_def IRF_divisor_def is_column_nd_map is_column_nd_zip is_column_m0 is_column_m2 is_column_m4)

lemma is_column_WLR: "is_column (ncols S) (WLR_of S)"
  by (simp add: WLR_of_def d1_of_def d2_of_def is_column_newaxis length_sum_axis0 ncols_simps)

lemma flatten_nd_map_column: "is_column c A \<Longrightarrow> flatten (nd_map f A) = map f (flatten A)"
  by (metis flatten_newaxis is_column_def nd_map_newaxis)

lemma flatten_nd_zip_column:
  "is_column c A \<Longrightarrow> is_column c B \<Longrightarrow> flatten (nd_zip f A B) = map2 f (flatten A) (flatten B)"
  by (metis flatten_newaxis is_column_def nd_zip_newaxis)

lemma flatten_concatenate0: "flatten (concatenate0 As) = concat (map flatten As)"
  by (induction As) (simp_all add: flatten_def concatenate0_def)

lemma flatten_nd_map: "flatten (nd_map f A) = map f (flatten A)"
  by (simp add: flatten_def nd_map_def map_concat)

lemma KSM1_flat:
  "KSM1 S0 =
     map (\<lambda>v. ln \<bar>v\<bar>)
       (flatten (m0_of (orient S0)) @
        flatten (nd_zip (-) (m0_of (orient S0)) (m2_of (orient S0))) @
        flatten (nd_zip (-) (m0_of (orient S0)) (m4_of (orient S0))) @
        flatten (sparsi_of (orient S0)) @
        flatten (IRF_of (orient S0)) @
        flatten (WLR_of (orient S0)))"
  by (simp add: KSM1_def Let_def flatten_nd_map flatten_concatenate0)

lemma length_KSM1: "length (KSM1 S0) = 6 * ncols (orient S0)"
proof -
  let ?S = "orient S0"
  have l: "length (flatten A) = ncols ?S" if "is_column (ncols ?S) A" for A
    using that by (simp add: is_column_def)
  show ?thesis
    by (simp add: KSM1_flat l is_column_m0 is_column_m2 is_column_m4 is_column_sparsi
        is_column_IRF is_column_WLR is_column_nd_zip)
qed

section \<open>The loop\<close>


lemma assign_row_shape:
  "assign_row F i v = Inr F' \<Longrightarrow> ncols F' = ncols F \<and> nrows F' = nrows F"
  by (auto simp add: assign_row_def nrows_def split: if_splits)

lemma assign_row_not_TypeError: "assign_row F i v \<noteq> Inl TypeError"
  by (simp add: assign_row_def)

lemma window_loop_frame:
  "window_loop k i st en w x feat h = (r, h') \<Longrightarrow>
     length h' = length h \<and> (\<forall>b. b \<noteq> feat \<longrightarrow> h' ! b = h ! b)"
proof (induction k arbitrary: i st en h)
  case 0
  then show ?case by simp
next
  case (Suc k)
  show ?case
  proof (cases "assign_row (h ! feat) i (window_features (slice_rows (h ! x) st en))")
    case (Inl e)
    with Suc.prems show ?thesis by (simp add: Let_def)
  next
    case (Inr F)
    with Suc.prems have
      "window_loop k (Suc i) (st + w) (en + w) w x feat (h[feat := F]) = (r, h')"
      by (simp add: Let_def)
    from Suc.IH[OF this] show ?thesis by simp
  qed
qed

lemma window_loop_not_TypeError:
  "fst (window_loop k i st en w x feat h) \<noteq> Inl TypeError"
proof (induction k arbitrary: i st en h)
  case 0
  then show ?case by simp
next
  case (Suc k)
  show ?case
  proof (cases "assign_row (h ! feat) i (window_features (slice_rows (h ! x) st en))")
    case (Inl e)
    then have "e \<noteq> TypeError" using assign_row_not_TypeError by metis
    with Inl show ?thesis by (simp add: Let_def)
  next
    case (Inr F)
    then show ?thesis using Suc.IH by (simp add: Let_def)
  qed
qed

text \<open>Two runs of the loop that see the same window features write the same rows.\<close>

lemma window_loop_cong:
  assumes "x1 \<noteq> f1" "x2 \<noteq> f2" "f1 < length h1" "f2 < length h2" "h1 ! f1 = h2 ! f2"
    and "\<And>a b. window_features (slice_rows (h1 ! x1) a b)
                 = window_features (slice_rows (h2 ! x2) a b)"
  shows "fst (window_loop k i st en w x1 f1 h1) = fst (window_loop k i st en w x2 f2 h2) \<and>
         snd (window_loop k i st en w x1 f1 h1) ! f1 = snd (window_loop k i st en w x2 f2 h2) ! f2"
  using assms
proof (induction k arbitrary: i st en h1 h2)
  case 0
  then show ?case by simp
next
  case (Suc k)
  let ?v = "window_features (slice_rows (h1 ! x1) st en)"
  have v: "window_features (slice_rows (h2 ! x2) st en) = ?v" using Suc.prems(6) by simp
  show ?case
  proof (cases "assign_row (h1 ! f1) i ?v")
    case (Inl e)
    then show ?thesis using Suc.prems(5) v by (simp add: Let_def)
  next
    case (Inr F)
    have "fst (window_loop k (Suc i) (st + w) (en + w) w x1 f1 (h1[f1 := F])) =
          fst (window_loop k (Suc i) (st + w) (en + w) w x2 f2 (h2[f2 := F])) \<and>
          snd (window_loop k (Suc i) (st + w) (en + w) w x1 f1 (h1[f1 := F])) ! f1 =
          snd (window_loop k (Suc i) (st + w) (en + w) w x2 f2 (h2[f2 := F])) ! f2"
      using Suc.prems by (intro Suc.IH) simp_all
    then show ?thesis using Inr Suc.prems(5) v by (simp add: Let_def)
  qed
qed

lemma window_loop_rows:
  assumes "x \<noteq> feat" "x < length h" "feat < length h"
    and "i + k \<le> nrows (h ! feat)"
    and "\<And>j. j < k \<Longrightarrow>
           length (window_features (slice_rows (h ! x) (st + int j * w) (en + int j * w)))
             = ncols (h ! feat)"
  shows "\<exists>h'. window_loop k i st en w x feat h = (Inr (), h') \<and>
          ncols (h' ! feat) = ncols (h ! feat) \<and> nrows (h' ! feat) = nrows (h ! feat) \<and>
          (\<forall>r < nrows (h ! feat). arows (h' ! feat) ! r =
             (if i \<le> r \<and> r < i + k
              then window_features (slice_rows (h ! x) (st + int (r - i) * w) (en + int (r - i) * w))
              else arows (h ! feat) ! r))"
  using assms
proof (induction k arbitrary: i st en h)
  case 0
  then show ?case by auto
next
  case (Suc k)
  let ?X = "h ! x" and ?F = "h ! feat"
  let ?v = "window_features (slice_rows ?X st en)"
  let ?F1 = "NDArray (ncols ?F) ((arows ?F)[i := ?v])"
  let ?h1 = "h[feat := ?F1]"
  have lv: "length ?v = ncols ?F" using Suc.prems(5)[of 0] by simp
  have ir: "i < nrows ?F" using Suc.prems(4) by simp
  have a: "assign_row ?F i ?v = Inr ?F1" using lv ir by (simp add: assign_row_def)
  have step: "window_loop (Suc k) i st en w x feat h =
              window_loop k (Suc i) (st + w) (en + w) w x feat ?h1"
    using a by (simp add: Let_def)
  have hx: "?h1 ! x = ?X" using Suc.prems(1) by simp
  have hf: "?h1 ! feat = ?F1" using Suc.prems(3) by simp
  have nF1: "nrows ?F1 = nrows ?F" "ncols ?F1 = ncols ?F" by (simp_all add: nrows_def)
  have len: "length (window_features (slice_rows (?h1 ! x) (st + w + int j * w) (en + w + int j * w)))
               = ncols (?h1 ! feat)" if "j < k" for j
  proof -
    have e: "st + w + int j * w = st + int (Suc j) * w" "en + w + int j * w = en + int (Suc j) * w"
      by (simp_all add: algebra_simps)
    have "Suc j < Suc k" using that by simp
    from Suc.prems(5)[OF this] show ?thesis unfolding e hx hf nF1 .
  qed
  have "\<exists>h'. window_loop k (Suc i) (st + w) (en + w) w x feat ?h1 = (Inr (), h') \<and>
          ncols (h' ! feat) = ncols (?h1 ! feat) \<and> nrows (h' ! feat) = nrows (?h1 ! feat) \<and>
          (\<forall>r < nrows (?h1 ! feat). arows (h' ! feat) ! r =
             (if Suc i \<le> r \<and> r < Suc i + k
              then window_features (slice_rows (?h1 ! x) (st + w + int (r - Suc i) * w) (en + w + int (r - Suc i) * w))
              else arows (?h1 ! feat) ! r))"
  proof (rule Suc.IH)
    show "x \<noteq> feat" by (rule Suc.prems(1))
    show "x < length ?h1" using Suc.prems(2) by simp
    show "feat < length ?h1" using Suc.prems(3) by simp
    show "Suc i + k \<le> nrows (?h1 ! feat)" using Suc.prems(4) hf nF1 by simp
    show "\<And>j. j < k \<Longrightarrow> length (window_features (slice_rows (?h1 ! x) (st + w + int j * w) (en + w + int j * w)))
               = ncols (?h1 ! feat)" by (rule len)
  qed
  then obtain h' where h': "window_loop k (Suc i) (st + w) (en + w) w x feat ?h1 = (Inr (), h')"
    "ncols (h' ! feat) = ncols ?F" "nrows (h' ! feat) = nrows ?F"
    and rows: "\<And>r. r < nrows ?F \<Longrightarrow> arows (h' ! feat) ! r =
             (if Suc i \<le> r \<and> r < Suc i + k
              then window_features (slice_rows ?X (st + w + int (r - Suc i) * w) (en + w + int (r - Suc i) * w))
              else arows ?F1 ! r)"
    using hx hf nF1 by auto
  have "arows (h' ! feat) ! r =
             (if i \<le> r \<and> r < i + Suc k
              then window_features (slice_rows ?X (st + int (r - i) * w) (en + int (r - i) * w))
              else arows ?F ! r)" if r: "r < nrows ?F" for r
  proof (cases "Suc i \<le> r \<and> r < Suc i + k")
    case True
    then have "int (r - i) = int (r - Suc i) + 1" by linarith
    then have e: "st + w + int (r - Suc i) * w = st + int (r - i) * w"
      "en + w + int (r - Suc i) * w = en + int (r - i) * w"
      by (simp_all add: algebra_simps)
    have "arows (h' ! feat) ! r =
      window_features (slice_rows ?X (st + int (r - i) * w) (en + int (r - i) * w))"
      using rows[OF r] True unfolding e by simp
    moreover have "i \<le> r \<and> r < i + Suc k" using True by simp
    ultimately show ?thesis by simp
  next
    case False
    show ?thesis
    proof (cases "r = i")
      case True
      then show ?thesis using rows[OF r] ir by (simp add: nrows_def)
    next
      case ne: False
      have out: "\<not> (i \<le> r \<and> r < i + Suc k)" using False ne by linarith
      have "arows (h' ! feat) ! r = arows ?F1 ! r" using rows[OF r] False by (simp only: if_False)
      also have "\<dots> = arows ?F ! r" using ne by simp
      finally show ?thesis using out by (simp only: if_False)
    qed
  qed
  then show ?case using step h' by simp
qed

section \<open>The windows\<close>


lemma slice_rows_inside:
  assumes "0 \<le> a" "a \<le> b" "b \<le> int (nrows S)"
  shows "slice_rows S a b = NDArray (ncols S) (take (nat (b - a)) (drop (nat a) (arows S)))"
proof -
  have "slice_bound (nrows S) a = nat a" "slice_bound (nrows S) b = nat b"
    using assms by (simp_all add: slice_bound_def)
  moreover have "nat b - nat a = nat (b - a)" using assms by simp
  ultimately show ?thesis by (simp add: slice_rows_def Let_def)
qed

lemma shape_orient_nd_map:
  "ncols (orient (nd_map f S)) = ncols (orient S)"
  by (simp add: orient_def ncols_simps nrows_simps)

lemma length_window_features: "length (window_features W) = 6 * ncols (orient W)"
  by (simp add: window_features_def Let_def length_KSM1 shape_orient_nd_map)

lemma window_in_range:
  assumes "0 < wininc" "winsize \<le> int n" "int i < (int n - winsize) div wininc + 1"
  shows "int i * wininc + winsize \<le> int n"
proof -
  have "int i \<le> (int n - winsize) div wininc" using assms(3) by simp
  then have "int i * wininc \<le> (int n - winsize) div wininc * wininc"
    using assms(1) by (simp add: mult_right_mono)
  also have "\<dots> \<le> int n - winsize"
  proof -
    have "(int n - winsize) div wininc * wininc + (int n - winsize) mod wininc = int n - winsize"
      by simp
    moreover have "0 \<le> (int n - winsize) mod wininc" using assms(1) by simp
    ultimately show ?thesis by linarith
  qed
  finally show ?thesis by simp
qed


text \<open>The window of index \<open>j\<close> in the words of the specification: rows
  \<open>[j * wininc, j * wininc + winsize)\<close>.\<close>

lemma window_slice:
  assumes "0 < winsize" "0 < wininc" "winsize \<le> int (nrows X)"
    and "int j < (int (nrows X) - winsize) div wininc + 1"
  shows "slice_rows X (0 + int j * wininc) (winsize + int j * wininc)
           = NDArray (ncols X) (take (nat winsize) (drop (j * nat wininc) (arows X)))"
    and "length (take (nat winsize) (drop (j * nat wininc) (arows X))) = nat winsize"
proof -
  have r: "int j * wininc + winsize \<le> int (nrows X)"
    using assms by (intro window_in_range) simp_all
  have a: "0 \<le> 0 + int j * wininc" using assms(2) by simp
  have n: "nat (0 + int j * wininc) = j * nat wininc"
    using assms(2) by (simp add: nat_mult_distrib)
  have "slice_rows X (0 + int j * wininc) (winsize + int j * wininc)
      = NDArray (ncols X) (take (nat (winsize + int j * wininc - (0 + int j * wininc)))
                                (drop (nat (0 + int j * wininc)) (arows X)))"
    using a assms(1) r by (intro slice_rows_inside) simp_all
  then show "slice_rows X (0 + int j * wininc) (winsize + int j * wininc)
           = NDArray (ncols X) (take (nat winsize) (drop (j * nat wininc) (arows X)))"
    unfolding n by simp
  have "int (nat wininc) = wininc" using assms(2) by simp
  then have "int (j * nat wininc) = int j * wininc" by (simp only: of_nat_mult)
  then have "int (j * nat wininc) + winsize \<le> int (length (arows X))"
    using r unfolding nrows_def by linarith
  then have "nat winsize \<le> length (arows X) - j * nat wininc" using assms(1) by linarith
  then show "length (take (nat winsize) (drop (j * nat wininc) (arows X))) = nat winsize"
    by simp
qed

text \<open>Inside the range of exact doubles the window count is the floor of the quotient, plus
  one.\<close>

lemma window_count_exact:
  assumes "b \<noteq> 0" "\<bar>a\<bar> < 2 ^ 53" "\<bar>b\<bar> < 2 ^ 53"
  shows "window_count dq a b = Inr (a div b + 1)"
  using assms by (simp add: window_count_def)

lemma window_count_not_TypeError: "window_count dq a b \<noteq> Inl TypeError"
  by (simp add: window_count_def split: option.splits)

lemma getTDPSDfeatv3_windows:
  assumes "0 < winsize" "0 < wininc" "winsize \<le> int (nrows (h ! x0))"
    and "int (ncols (h ! x0)) \<le> winsize"
    and wc: "window_count dq (int (nrows (h ! x0)) - winsize) wininc
               = Inr ((int (nrows (h ! x0)) - winsize) div wininc + 1)"
  shows "\<exists>h'. getTDPSDfeatv3 dq x0 (winsize # wininc # rest) h = (Inr (Suc (length h)), h') \<and>
           ncols (h' ! Suc (length h)) = ncols (h ! x0) * 6 \<and>
           int (nrows (h' ! Suc (length h))) = (int (nrows (h ! x0)) - winsize) div wininc + 1 \<and>
           (\<forall>i. int i < (int (nrows (h ! x0)) - winsize) div wininc + 1 \<longrightarrow>
              arows (h' ! Suc (length h)) ! i =
                window_features (NDArray (ncols (h ! x0))
                  (take (nat winsize) (drop (i * nat wininc) (arows (h ! x0))))))"
proof -
  let ?X = "h ! x0"
  let ?nw = "(int (nrows ?X) - winsize) div wininc + 1"
  let ?Z = "zeros (nat ?nw) (ncols ?X * 6)"
  let ?h2 = "(h @ [?X]) @ [?Z]"
  let ?x = "length h" and ?f = "Suc (length h)"
  have nw: "0 < ?nw" using assms(2,3) by (simp add: pos_imp_zdiv_nonneg_iff add_pos_nonneg)
  have hx: "?h2 ! ?x = ?X" by (simp add: nth_append)
  have hf: "?h2 ! ?f = ?Z" by (simp add: nth_append)
  have unfold: "getTDPSDfeatv3 dq x0 (winsize # wininc # rest) h =
      (case window_loop (nat ?nw) 0 0 winsize wininc ?x ?f ?h2 of
          (Inl e, h3) \<Rightarrow> (Inl e, h3)
        | (Inr u, h3) \<Rightarrow> (Inr ?f, h3))"
    using nw wc by (simp add: getTDPSDfeatv3_def alloc_def Let_def nth_append)
  have len: "length (window_features (slice_rows (?h2 ! ?x) (0 + int j * wininc) (winsize + int j * wininc)))
      = ncols (?h2 ! ?f)" if "j < nat ?nw" for j
  proof -
    have j: "int j < ?nw" using that by linarith
    let ?W = "NDArray (ncols ?X) (take (nat winsize) (drop (j * nat wininc) (arows ?X)))"
    have "nrows ?W = nat winsize"
      using window_slice(2)[OF assms(1,2,3) j] by (simp add: nrows_def)
    moreover have "ncols ?W \<le> nat winsize" using assms(4) by simp
    ultimately have "\<not> nrows ?W < ncols ?W" by linarith
    then have "orient ?W = ?W" unfolding orient_def by (simp only: if_False)
    then have "length (window_features ?W) = 6 * ncols ?X"
      by (simp add: length_window_features)
    then show ?thesis
      unfolding hx hf window_slice(1)[OF assms(1,2,3) j] by (simp add: ncols_simps)
  qed
  have "\<exists>h'. window_loop (nat ?nw) 0 0 winsize wininc ?x ?f ?h2 = (Inr (), h') \<and>
          ncols (h' ! ?f) = ncols (?h2 ! ?f) \<and> nrows (h' ! ?f) = nrows (?h2 ! ?f) \<and>
          (\<forall>r < nrows (?h2 ! ?f). arows (h' ! ?f) ! r =
             (if 0 \<le> r \<and> r < 0 + nat ?nw
              then window_features (slice_rows (?h2 ! ?x) (0 + int (r - 0) * wininc) (winsize + int (r - 0) * wininc))
              else arows (?h2 ! ?f) ! r))"
  proof (rule window_loop_rows)
    show "?x \<noteq> ?f" by simp
    show "?x < length ?h2" by simp
    show "?f < length ?h2" by simp
    show "0 + nat ?nw \<le> nrows (?h2 ! ?f)" unfolding hf by (simp add: nrows_simps)
    show "\<And>j. j < nat ?nw \<Longrightarrow>
       length (window_features (slice_rows (?h2 ! ?x) (0 + int j * wininc) (winsize + int j * wininc)))
         = ncols (?h2 ! ?f)" by (rule len)
  qed
  then obtain h' where loop: "window_loop (nat ?nw) 0 0 winsize wininc ?x ?f ?h2 = (Inr (), h')"
    and c: "ncols (h' ! ?f) = ncols ?Z" and r: "nrows (h' ! ?f) = nrows ?Z"
    and rows: "\<And>r. r < nat ?nw \<Longrightarrow> arows (h' ! ?f) ! r =
        window_features (slice_rows ?X (0 + int r * wininc) (winsize + int r * wininc))"
    unfolding hx hf by (auto simp add: nrows_simps)
  have "getTDPSDfeatv3 dq x0 (winsize # wininc # rest) h = (Inr ?f, h')"
    unfolding unfold loop by simp
  moreover have "ncols (h' ! ?f) = ncols ?X * 6" using c by (simp add: ncols_simps)
  moreover have "int (nrows (h' ! ?f)) = ?nw" using r nw by (simp add: nrows_simps)
  moreover have "arows (h' ! ?f) ! i =
      window_features (NDArray (ncols ?X) (take (nat winsize) (drop (i * nat wininc) (arows ?X))))"
    if "int i < ?nw" for i
  proof -
    have "i < nat ?nw" using that by linarith
    from rows[OF this] show ?thesis
      unfolding window_slice(1)[OF assms(1,2,3) that] .
  qed
  ultimately show ?thesis by blast
qed

text \<open>A window with fewer rows than columns is transposed by \<^verbatim>\<open>KSM1\<close>, its feature vector has
  \<open>6 * winsize\<close> entries, and the assignment to the row of \<open>6 * channels\<close> entries raises.\<close>


lemma getTDPSDfeatv3_wide_window:
  assumes "0 < winsize" "0 < wininc" "winsize \<le> int (nrows (h ! x0))"
    and "winsize < int (ncols (h ! x0))"
    and wc: "window_count dq (int (nrows (h ! x0)) - winsize) wininc
               = Inr ((int (nrows (h ! x0)) - winsize) div wininc + 1)"
  shows "getTDPSDfeatv3 dq x0 (winsize # wininc # rest) h =
           (Inl ValueError,
            (h @ [h ! x0]) @
            [zeros (nat ((int (nrows (h ! x0)) - winsize) div wininc + 1)) (ncols (h ! x0) * 6)])"
proof -
  let ?X = "h ! x0"
  let ?nw = "(int (nrows ?X) - winsize) div wininc + 1"
  let ?Z = "zeros (nat ?nw) (ncols ?X * 6)"
  let ?h2 = "(h @ [?X]) @ [?Z]"
  let ?x = "length h" and ?f = "Suc (length h)"
  have nw: "0 < ?nw" using assms(2,3) by (simp add: pos_imp_zdiv_nonneg_iff add_pos_nonneg)
  then obtain k where k: "nat ?nw = Suc k" by (metis Suc_pred' zero_less_nat_eq)
  have hx: "?h2 ! ?x = ?X" by (simp add: nth_append)
  have hf: "?h2 ! ?f = ?Z" by (simp add: nth_append)
  have unfold: "getTDPSDfeatv3 dq x0 (winsize # wininc # rest) h =
      (case window_loop (nat ?nw) 0 0 winsize wininc ?x ?f ?h2 of
          (Inl e, h3) \<Rightarrow> (Inl e, h3)
        | (Inr u, h3) \<Rightarrow> (Inr ?f, h3))"
    using nw wc by (simp add: getTDPSDfeatv3_def alloc_def Let_def nth_append)
  have j: "int (0::nat) < ?nw" using nw by simp
  let ?W = "NDArray (ncols ?X) (take (nat winsize) (drop (0 * nat wininc) (arows ?X)))"
  have W: "slice_rows ?X 0 winsize = ?W"
    using window_slice(1)[OF assms(1,2,3) j] by simp
  have "nrows ?W = nat winsize"
    using window_slice(2)[OF assms(1,2,3) j] by (simp add: nrows_def)
  moreover have "nat winsize < ncols ?W" using assms(1,4) by simp
  ultimately have "ncols (orient ?W) = nat winsize"
    by (simp add: orient_def ncols_simps)
  then have l: "length (window_features ?W) = 6 * nat winsize"
    by (simp add: length_window_features)
  have "6 * nat winsize \<noteq> ncols ?Z" using assms(1,4) by (simp add: ncols_simps)
  moreover have "6 * nat winsize \<noteq> 1" by (cases "nat winsize") simp_all
  moreover have "\<not> nrows ?Z \<le> 0" using nw by (simp add: nrows_simps)
  ultimately have "assign_row ?Z 0 (window_features ?W) = Inl ValueError"
    unfolding assign_row_def l by (simp only: if_False)
  then have "window_loop (Suc k) 0 0 winsize wininc ?x ?f ?h2 = (Inl ValueError, ?h2)"
    unfolding window_loop.simps hx hf W Let_def by simp
  then show ?thesis unfolding unfold k by simp
qed

lemma window_features_nth:
  assumes "j < 6 * ncols (orient W)"
  shows "window_features W ! j =
     - 2 * (KSM1 (nd_map (\<lambda>v. ln (v\<^sup>2 + spacing_1)) W) ! j) * (KSM1 W ! j)
     - ((KSM1 (nd_map (\<lambda>v. ln (v\<^sup>2 + spacing_1)) W) ! j)\<^sup>2 + (KSM1 W ! j)\<^sup>2)"
proof -
  let ?ebp = "KSM1 W" and ?efp = "KSM1 (nd_map (\<lambda>v. ln (v\<^sup>2 + spacing_1)) W)"
  have l: "j < length ?ebp" "j < length ?efp"
    using assms by (simp_all add: length_KSM1 shape_orient_nd_map)
  then show ?thesis
    by (simp add: window_features_def Let_def power2_eq_square)
qed

lemma concat_nth_rect:
  assumes "\<forall>r \<in> set rs. length r = c" "k < length rs" "j < c"
  shows "concat rs ! (k * c + j) = rs ! k ! j"
  using assms
proof (induction rs arbitrary: k)
  case Nil
  then show ?case by simp
next
  case (Cons r rs)
  show ?case
  proof (cases k)
    case 0
    then show ?thesis using Cons.prems by (simp add: nth_append)
  next
    case (Suc k')
    have "length r = c" using Cons.prems(1) by simp
    then have "concat (r # rs) ! (k * c + j) = concat rs ! (k' * c + j)"
      using Suc by (simp add: nth_append)
    also have "\<dots> = rs ! k' ! j" using Cons.prems Suc by (intro Cons.IH) simp_all
    finally show ?thesis using Suc by simp
  qed
qed

lemma flatten_nth:
  assumes "wf_ndarray Q" "k < nrows Q" "j < ncols Q"
  shows "flatten Q ! (k * ncols Q + j) = arows Q ! k ! j"
  using assms unfolding flatten_def wf_ndarray_def nrows_def list_all_iff
  by (intro concat_nth_rect) simp_all

lemma nd_map_nth:
  "k < nrows Q \<Longrightarrow> c < length (arows Q ! k) \<Longrightarrow> arows (nd_map f Q) ! k ! c = f (arows Q ! k ! c)"
  by (simp add: nd_map_def nrows_def)

lemma wf_row_length:
  "wf_ndarray Q \<Longrightarrow> k < nrows Q \<Longrightarrow> length (arows Q ! k) = ncols Q"
  by (simp add: wf_ndarray_def list_all_length nrows_def)

lemma column_length: "is_column c A \<Longrightarrow> length (flatten A) = c"
  by (simp add: is_column_def)

lemma KSM1_stack:
  fixes S0
  defines "S \<equiv> orient S0"
  defines "Q \<equiv> NDArray (ncols S)
             [flatten (m0_of S),
              flatten (nd_zip (-) (m0_of S) (m2_of S)),
              flatten (nd_zip (-) (m0_of S) (m4_of S)),
              flatten (sparsi_of S),
              flatten (IRF_of S),
              flatten (WLR_of S)]"
  shows "wf_ndarray Q" and "nrows Q = 6"
    and "KSM1 S0 = flatten (nd_map (\<lambda>v. ln \<bar>v\<bar>) Q)"
    and "k < 6 \<Longrightarrow> c < ncols S \<Longrightarrow> KSM1 S0 ! (k * ncols S + c) = ln \<bar>arows Q ! k ! c\<bar>"
proof -
  show wf: "wf_ndarray Q"
    by (simp add: Q_def wf_ndarray_def column_length is_column_m0 is_column_m2 is_column_m4
        is_column_sparsi is_column_IRF is_column_WLR is_column_nd_zip)
  show n: "nrows Q = 6" by (simp add: Q_def nrows_def)
  show flat: "KSM1 S0 = flatten (nd_map (\<lambda>v. ln \<bar>v\<bar>) Q)"
    by (simp add: Q_def S_def KSM1_flat flatten_def nd_map_def)
  show "KSM1 S0 ! (k * ncols S + c) = ln \<bar>arows Q ! k ! c\<bar>" if "k < 6" "c < ncols S"
  proof -
    let ?L = "nd_map (\<lambda>v. ln \<bar>v\<bar>) Q"
    have cQ: "ncols Q = ncols S" by (simp add: Q_def)
    have "wf_ndarray ?L" using wf by (rule wf_nd_map)
    moreover have "k < nrows ?L" using that(1) n by (simp add: nrows_simps)
    moreover have "c < ncols ?L" using that(2) cQ by (simp add: ncols_simps)
    ultimately have "flatten ?L ! (k * ncols ?L + c) = arows ?L ! k ! c"
      by (rule flatten_nth)
    moreover have "ncols ?L = ncols S" using cQ by (simp add: ncols_simps)
    moreover have "arows ?L ! k ! c = ln \<bar>arows Q ! k ! c\<bar>"
    proof (rule nd_map_nth)
      show "k < nrows Q" using that(1) n by simp
      with wf have "length (arows Q ! k) = ncols Q" by (rule wf_row_length)
      then show "c < length (arows Q ! k)" using that(2) cQ by simp
    qed
    ultimately show ?thesis using flat by simp
  qed
qed

lemma sum_axis0_nth:
  "c < ncols A \<Longrightarrow> sum_axis0 A ! c = (\<Sum>t = 0..<nrows A. arows A ! t ! c)"
  by (simp add: sum_axis0_def nrows_def sum_list_sum_nth)

lemma diff_axis0_nth:
  assumes "wf_ndarray S" "t < nrows S - 1" "c < ncols S"
  shows "arows (diff_axis0 S) ! t ! c = arows S ! Suc t ! c - arows S ! t ! c"
proof -
  let ?rs = "arows S"
  have t: "t < length (tl ?rs)" "t < length (butlast ?rs)" using assms(2) by (simp_all add: nrows_def)
  have a: "tl ?rs ! t = ?rs ! Suc t" using t(1) by (simp add: nth_tl)
  have b: "butlast ?rs ! t = ?rs ! t" using t(2) by (simp add: nth_butlast)
  have "Suc t < nrows S" "t < nrows S" using assms(2) by simp_all
  then have "length (?rs ! Suc t) = ncols S" "length (?rs ! t) = ncols S"
    using assms(1) by (simp_all add: wf_row_length)
  then have "map2 (-) (?rs ! Suc t) (?rs ! t) ! c = ?rs ! Suc t ! c - ?rs ! t ! c"
    using assms(3) by simp
  then show ?thesis using t a b by (simp add: diff_axis0_def)
qed

lemma sum_sq_nth:
  assumes "wf_ndarray A" "c < ncols A"
  shows "sum_axis0 (nd_map (\<lambda>v. v\<^sup>2) A) ! c = (\<Sum>t = 0..<nrows A. (arows A ! t ! c)\<^sup>2)"
proof -
  have "arows (nd_map (\<lambda>v. v\<^sup>2) A) ! t ! c = (arows A ! t ! c)\<^sup>2" if "t < nrows A" for t
    using that assms by (intro nd_map_nth) (simp_all add: wf_row_length)
  then show ?thesis using assms(2) by (simp add: sum_axis0_nth ncols_simps nrows_simps)
qed

lemma m2_of_nth:
  assumes "wf_ndarray S" "c < ncols S"
  shows "flatten (m2_of S) ! c = m2_spec S c"
proof -
  have "flatten (m2_of S) ! c =
      root_moment (sqrt (sum_axis0 (nd_map (\<lambda>v. v\<^sup>2) (diff_axis0 S)) ! c / of_int (int (nrows S) - 1)))"
    using assms(2)
    by (simp add: m2_of_def d1_of_def nd_map_newaxis flatten_newaxis length_sum_axis0 ncols_simps)
  also have "sum_axis0 (nd_map (\<lambda>v. v\<^sup>2) (diff_axis0 S)) ! c =
      (\<Sum>t = 0..<nrows S - 1. (arows (diff_axis0 S) ! t ! c)\<^sup>2)"
    using assms by (simp add: sum_sq_nth wf_diff ncols_simps nrows_simps)
  also have "\<dots> = (\<Sum>t = 0..<nrows S - 1. (arows S ! Suc t ! c - arows S ! t ! c)\<^sup>2)"
    using assms by (intro sum.cong) (simp_all add: diff_axis0_nth)
  finally show ?thesis by (simp add: m2_spec_def root_moment_def)
qed

lemma m4_of_nth:
  assumes "wf_ndarray S" "c < ncols S"
  shows "flatten (m4_of S) ! c = m4_spec S c"
proof -
  let ?d1 = "diff_axis0 S"
  have wd: "wf_ndarray ?d1" using assms(1) by (rule wf_diff)
  have "flatten (m4_of S) ! c =
      root_moment (sqrt (sum_axis0 (nd_map (\<lambda>v. v\<^sup>2) (diff_axis0 ?d1)) ! c / of_int (int (nrows S) - 1)))"
    using assms(2)
    by (simp add: m4_of_def d1_of_def d2_of_def nd_map_newaxis flatten_newaxis length_sum_axis0 ncols_simps)
  also have "sum_axis0 (nd_map (\<lambda>v. v\<^sup>2) (diff_axis0 ?d1)) ! c =
      (\<Sum>t = 0..<nrows S - 2. (arows (diff_axis0 ?d1) ! t ! c)\<^sup>2)"
  proof -
    have "nrows (diff_axis0 ?d1) = nrows S - 2" by (simp add: nrows_simps)
    moreover have "wf_ndarray (diff_axis0 ?d1)" using wd by (rule wf_diff)
    moreover have "c < ncols (diff_axis0 ?d1)" using assms(2) by (simp add: ncols_simps)
    ultimately show ?thesis using sum_sq_nth[of "diff_axis0 ?d1" c] by simp
  qed
  also have "\<dots> = (\<Sum>t = 0..<nrows S - 2.
       ((arows S ! Suc (Suc t) ! c - arows S ! Suc t ! c) - (arows S ! Suc t ! c - arows S ! t ! c))\<^sup>2)"
  proof (rule sum.cong)
    fix t assume "t \<in> {0..<nrows S - 2}"
    then have t: "t < nrows S - 2" by simp
    then have "t < nrows ?d1 - 1" by (simp add: nrows_simps)
    then have "arows (diff_axis0 ?d1) ! t ! c = arows ?d1 ! Suc t ! c - arows ?d1 ! t ! c"
      using wd assms(2) by (intro diff_axis0_nth) (simp_all add: ncols_simps)
    moreover have "arows ?d1 ! Suc t ! c = arows S ! Suc (Suc t) ! c - arows S ! Suc t ! c"
      using assms t by (intro diff_axis0_nth) simp_all
    moreover have "arows ?d1 ! t ! c = arows S ! Suc t ! c - arows S ! t ! c"
      using assms t by (intro diff_axis0_nth) simp_all
    ultimately show "(arows (diff_axis0 ?d1) ! t ! c)\<^sup>2 =
      ((arows S ! Suc (Suc t) ! c - arows S ! Suc t ! c) - (arows S ! Suc t ! c - arows S ! t ! c))\<^sup>2"
      by simp
  qed simp
  finally show ?thesis by (simp add: m4_spec_def root_moment_def)
qed


lemma KSM1_difference_entry:
  assumes "c < ncols (orient S0)"
  shows "KSM1 S0 ! (1 * ncols (orient S0) + c) =
           ln \<bar>flatten (m0_of (orient S0)) ! c - flatten (m2_of (orient S0)) ! c\<bar>"
    and "KSM1 S0 ! (2 * ncols (orient S0) + c) =
           ln \<bar>flatten (m0_of (orient S0)) ! c - flatten (m4_of (orient S0)) ! c\<bar>"
proof -
  let ?S = "orient S0"
  have l: "c < length (flatten (m0_of ?S))" "c < length (flatten (m2_of ?S))"
    "c < length (flatten (m4_of ?S))"
    using assms by (simp_all add: column_length[OF is_column_m0] column_length[OF is_column_m2]
        column_length[OF is_column_m4])
  have "flatten (nd_zip (-) (m0_of ?S) (m2_of ?S)) ! c = flatten (m0_of ?S) ! c - flatten (m2_of ?S) ! c"
    using l by (simp add: flatten_nd_zip_column[OF is_column_m0 is_column_m2])
  then show "KSM1 S0 ! (1 * ncols ?S + c) = ln \<bar>flatten (m0_of ?S) ! c - flatten (m2_of ?S) ! c\<bar>"
    using KSM1_stack(4)[of 1 c S0] assms by simp
  have "flatten (nd_zip (-) (m0_of ?S) (m4_of ?S)) ! c = flatten (m0_of ?S) ! c - flatten (m4_of ?S) ! c"
    using l by (simp add: flatten_nd_zip_column[OF is_column_m0 is_column_m4])
  then show "KSM1 S0 ! (2 * ncols ?S + c) = ln \<bar>flatten (m0_of ?S) ! c - flatten (m4_of ?S) ! c\<bar>"
    using KSM1_stack(4)[of 2 c S0] assms by simp
qed

text \<open>The call, with the allocations carried out.\<close>

lemma getTDPSDfeatv3_unfold:
  "getTDPSDfeatv3 dq x0 ps h =
     (if length ps < 2 then (Inl TypeError, h @ [h ! x0])
      else case window_count dq (int (nrows (h ! x0)) - ps ! 0) (ps ! 1) of
             Inl e \<Rightarrow> (Inl e, h @ [h ! x0])
           | Inr numwin \<Rightarrow>
               if numwin < 0 then (Inl ValueError, h @ [h ! x0])
               else case window_loop (nat numwin) 0 0 (ps ! 0) (ps ! 1) (length h) (Suc (length h))
                           ((h @ [h ! x0]) @ [zeros (nat numwin) (ncols (h ! x0) * 6)]) of
                      (Inl e, h3) \<Rightarrow> (Inl e, h3)
                    | (Inr u, h3) \<Rightarrow> (Inr (Suc (length h)), h3))"
  by (simp add: getTDPSDfeatv3_def alloc_def Let_def nth_append split: sum.splits)

lemma getTDPSDfeatv3_frame:
  assumes "getTDPSDfeatv3 dq x0 ps h = (r, h')"
  shows "take (length h) h' = h"
proof -
  let ?X = "h ! x0"
  have "h' = h @ [?X] \<or>
        (\<exists>numwin. h' = snd (window_loop (nat numwin) 0 0 (ps ! 0) (ps ! 1) (length h) (Suc (length h))
                     ((h @ [?X]) @ [zeros (nat numwin) (ncols ?X * 6)])))"
  proof (cases "length ps < 2")
    case True
    then show ?thesis using assms by (simp add: getTDPSDfeatv3_unfold)
  next
    case long: False
    show ?thesis
    proof (cases "window_count dq (int (nrows ?X) - ps ! 0) (ps ! 1)")
      case (Inl e)
      then show ?thesis using assms long by (simp add: getTDPSDfeatv3_unfold)
    next
      case (Inr n)
      show ?thesis
      proof (cases "n < 0")
        case True
        then show ?thesis using assms long Inr by (simp add: getTDPSDfeatv3_unfold)
      next
        case False
        let ?loop = "window_loop (nat n) 0 0 (ps ! 0) (ps ! 1) (length h) (Suc (length h))
                       ((h @ [?X]) @ [zeros (nat n) (ncols ?X * 6)])"
        have "h' = snd ?loop"
          using assms long Inr False unfolding getTDPSDfeatv3_unfold
          by (cases ?loop) (auto split: sum.splits)
        then show ?thesis by blast
      qed
    qed
  qed
  then consider (short) "h' = h @ [?X]"
    | (loop) numwin where
        "h' = snd (window_loop (nat numwin) 0 0 (ps ! 0) (ps ! 1) (length h) (Suc (length h))
                     ((h @ [?X]) @ [zeros (nat numwin) (ncols ?X * 6)]))"
    by blast
  then show ?thesis
  proof cases
    case short
    then show ?thesis by simp
  next
    case loop
    let ?h2 = "(h @ [?X]) @ [zeros (nat numwin) (ncols ?X * 6)]"
    let ?loop = "window_loop (nat numwin) 0 0 (ps ! 0) (ps ! 1) (length h) (Suc (length h)) ?h2"
    obtain r3 where "?loop = (r3, h')" using loop by (metis prod.collapse)
    from window_loop_frame[OF this]
    have l: "length h' = length ?h2" and o: "\<And>b. b \<noteq> Suc (length h) \<Longrightarrow> h' ! b = ?h2 ! b"
      by simp_all
    show ?thesis
    proof (rule nth_equalityI)
      show "length (take (length h) h') = length h" using l by simp
      fix i assume "i < length (take (length h) h')"
      then have i: "i < length h" by simp
      then have "h' ! i = ?h2 ! i" by (intro o) simp
      then show "take (length h) h' ! i = h ! i" using i by (simp add: nth_append)
    qed
  qed
qed

text \<open>What a call returns depends on the caller's array alone, through the features of its
  windows, and not on the rest of the heap.\<close>

lemma getTDPSDfeatv3_cong:
  assumes "nrows (h1 ! x1) = nrows (h2 ! x2)" "ncols (h1 ! x1) = ncols (h2 ! x2)"
    and "\<And>a b. window_features (slice_rows (h1 ! x1) a b)
                 = window_features (slice_rows (h2 ! x2) a b)"
  shows "returned (getTDPSDfeatv3 dq x1 ps h1) = returned (getTDPSDfeatv3 dq x2 ps h2)"
proof -
  have loops: "(case window_loop (nat n) 0 0 (ps ! 0) (ps ! 1) (length h1) (Suc (length h1))
                   ((h1 @ [h1 ! x1]) @ [zeros (nat n) (ncols (h1 ! x1) * 6)]) of
               (Inl e, h3) \<Rightarrow> Inl e | (Inr u, h3) \<Rightarrow> Inr (h3 ! Suc (length h1)))
           = (case window_loop (nat n) 0 0 (ps ! 0) (ps ! 1) (length h2) (Suc (length h2))
                   ((h2 @ [h2 ! x2]) @ [zeros (nat n) (ncols (h1 ! x1) * 6)]) of
               (Inl e, h3) \<Rightarrow> Inl e | (Inr u, h3) \<Rightarrow> Inr (h3 ! Suc (length h2)))" for n
  proof -
    let ?Z = "zeros (nat n) (ncols (h1 ! x1) * 6)"
    let ?g1 = "(h1 @ [h1 ! x1]) @ [?Z]" and ?g2 = "(h2 @ [h2 ! x2]) @ [?Z]"
    let ?l1 = "window_loop (nat n) 0 0 (ps ! 0) (ps ! 1) (length h1) (Suc (length h1)) ?g1"
    let ?l2 = "window_loop (nat n) 0 0 (ps ! 0) (ps ! 1) (length h2) (Suc (length h2)) ?g2"
    have "fst ?l1 = fst ?l2 \<and> snd ?l1 ! Suc (length h1) = snd ?l2 ! Suc (length h2)"
    proof (rule window_loop_cong)
      show "?g1 ! Suc (length h1) = ?g2 ! Suc (length h2)" by (simp add: nth_append)
      show "\<And>a b. window_features (slice_rows (?g1 ! length h1) a b)
                   = window_features (slice_rows (?g2 ! length h2) a b)"
        using assms(3) by (simp add: nth_append)
    qed simp_all
    then show ?thesis by (cases ?l1; cases ?l2) (auto split: sum.splits)
  qed
  show ?thesis
  proof (cases "length ps < 2")
    case True
    then show ?thesis by (simp add: getTDPSDfeatv3_unfold returned_def)
  next
    case long: False
    show ?thesis
    proof (cases "window_count dq (int (nrows (h1 ! x1)) - ps ! 0) (ps ! 1)")
      case (Inl e)
      then show ?thesis
        using long by (simp add: getTDPSDfeatv3_unfold returned_def assms(1)[symmetric])
    next
      case (Inr n)
      show ?thesis
      proof (cases "n < 0")
        case True
        then show ?thesis
          using long Inr by (simp add: getTDPSDfeatv3_unfold returned_def assms(1)[symmetric])
      next
        case False
        let ?l1 = "window_loop (nat n) 0 0 (ps ! 0) (ps ! 1) (length h1) (Suc (length h1))
                   ((h1 @ [h1 ! x1]) @ [zeros (nat n) (ncols (h1 ! x1) * 6)])"
        let ?l2 = "window_loop (nat n) 0 0 (ps ! 0) (ps ! 1) (length h2) (Suc (length h2))
                   ((h2 @ [h2 ! x2]) @ [zeros (nat n) (ncols (h1 ! x1) * 6)])"
        have "returned (getTDPSDfeatv3 dq x1 ps h1) =
            (case ?l1 of (Inl e, h3) \<Rightarrow> Inl e | (Inr u, h3) \<Rightarrow> Inr (h3 ! Suc (length h1)))"
          using long Inr False unfolding getTDPSDfeatv3_unfold returned_def
          by (cases ?l1) (auto split: sum.splits)
        moreover have "returned (getTDPSDfeatv3 dq x2 ps h2) =
            (case ?l2 of (Inl e, h3) \<Rightarrow> Inl e | (Inr u, h3) \<Rightarrow> Inr (h3 ! Suc (length h2)))"
          using long Inr False
          unfolding getTDPSDfeatv3_unfold returned_def assms(1)[symmetric] assms(2)[symmetric]
          by (cases ?l2) (auto split: sum.splits)
        ultimately show ?thesis using loops[of n] by simp
      qed
    qed
  qed
qed

lemma transpose_nd_involution:
  assumes "wf_ndarray S"
  shows "transpose_nd (transpose_nd S) = S"
proof -
  let ?rs = "arows S" and ?c = "ncols S"
  have len: "\<And>i. i < length ?rs \<Longrightarrow> length (?rs ! i) = ?c"
    using assms by (simp add: wf_ndarray_def list_all_length)
  have "map (\<lambda>i. map (\<lambda>r. r ! i) (map (\<lambda>j. map (\<lambda>r. r ! j) ?rs) [0..<?c])) [0..<length ?rs] = ?rs"
  proof (rule nth_equalityI)
    show "length (map (\<lambda>i. map (\<lambda>r. r ! i) (map (\<lambda>j. map (\<lambda>r. r ! j) ?rs) [0..<?c])) [0..<length ?rs])
            = length ?rs" by simp
    fix i
    assume "i < length (map (\<lambda>i. map (\<lambda>r. r ! i) (map (\<lambda>j. map (\<lambda>r. r ! j) ?rs) [0..<?c])) [0..<length ?rs])"
    then have i: "i < length ?rs" by simp
    have "map (\<lambda>r. r ! i) (map (\<lambda>j. map (\<lambda>r. r ! j) ?rs) [0..<?c]) = map (\<lambda>j. ?rs ! i ! j) [0..<?c]"
      using i by simp
    also have "\<dots> = ?rs ! i" using len[OF i] by (metis map_nth)
    finally show "map (\<lambda>i. map (\<lambda>r. r ! i) (map (\<lambda>j. map (\<lambda>r. r ! j) ?rs) [0..<?c])) [0..<length ?rs] ! i
        = ?rs ! i" using i by simp
  qed
  then have "transpose_nd (transpose_nd S) = NDArray (ncols S) (arows S)"
    by (simp add: transpose_nd_def nrows_def)
  then show ?thesis by simp
qed

lemma orient_idem: "orient (orient S) = orient S"
  by (simp add: orient_def nrows_simps ncols_simps)

lemma KSM1_orient: "KSM1 (orient S) = KSM1 S"
  by (simp add: KSM1_def orient_idem)

lemma nd_map_nd_map: "nd_map f (nd_map g S) = nd_map (\<lambda>v. f (g v)) S"
  by (simp add: nd_map_def comp_def)

lemma diff_axis0_uminus: "diff_axis0 (nd_map uminus S) = nd_map uminus (diff_axis0 S)"
proof -
  have p: "map2 (-) (map uminus a) (map uminus b) = map uminus (map2 (-) a b)"
    for a b :: "real list"
    by (auto simp add: zip_map_map)
  have q: "map2 (map2 (-)) (map (map uminus) xs) (map (map uminus) ys)
          = map (map uminus) (map2 (map2 (-)) xs ys)" for xs ys :: "real list list"
    by (auto simp add: zip_map_map p)
  have "tl (map (map uminus) (arows S)) = map (map uminus) (tl (arows S))"
    by (simp add: map_tl)
  moreover have "butlast (map (map uminus) (arows S)) = map (map uminus) (butlast (arows S))"
    by (simp add: map_butlast)
  ultimately show ?thesis
    unfolding diff_axis0_def nd_map_def by (simp only: q ndarray.sel)
qed

lemma transpose_nd_map:
  assumes "wf_ndarray S"
  shows "transpose_nd (nd_map f S) = nd_map f (transpose_nd S)"
proof -
  have "map (\<lambda>r. r ! j) (map (map f) (arows S)) = map f (map (\<lambda>r. r ! j) (arows S))"
    if "j < ncols S" for j
    using assms that by (simp add: wf_ndarray_def list_all_iff)
  then show ?thesis
    by (simp add: transpose_nd_def nd_map_def nrows_def)
qed

lemma orient_nd_map:
  assumes "wf_ndarray S"
  shows "orient (nd_map f S) = nd_map f (orient S)"
  using assms by (simp add: orient_def nrows_simps ncols_simps transpose_nd_map)

text \<open>Every quantity of \<^verbatim>\<open>KSM1\<close> sees the window through squares and absolute values of the
  window and of its differences.\<close>

lemma moments_uminus:
  "m0_of (nd_map uminus S) = m0_of S"
  "m2_of (nd_map uminus S) = m2_of S"
  "m4_of (nd_map uminus S) = m4_of S"
  "WLR_of (nd_map uminus S) = WLR_of S"
  by (simp_all add: m0_of_def m2_of_def m4_of_def WLR_of_def d1_of_def d2_of_def
      diff_axis0_uminus nd_map_nd_map nrows_simps)

lemma ratios_uminus:
  "sparsi_of (nd_map uminus S) = sparsi_of S"
  "IRF_of (nd_map uminus S) = IRF_of S"
  by (simp_all add: sparsi_of_def sparsi_divisor_def IRF_of_def IRF_divisor_def moments_uminus)

lemma KSM1_uminus:
  assumes "wf_ndarray S"
  shows "KSM1 (nd_map uminus S) = KSM1 S"
  by (simp add: KSM1_def Let_def orient_nd_map[OF assms] moments_uminus ratios_uminus)

lemma wf_slice_rows: "wf_ndarray S \<Longrightarrow> wf_ndarray (slice_rows S a b)"
  by (auto simp add: wf_ndarray_def slice_rows_def Let_def list_all_iff
      dest!: in_set_takeD in_set_dropD)

lemma slice_rows_nd_map: "slice_rows (nd_map f S) a b = nd_map f (slice_rows S a b)"
  by (simp add: slice_rows_def nd_map_def Let_def nrows_def take_map drop_map)

lemma window_features_uminus:
  assumes "wf_ndarray W"
  shows "window_features (nd_map uminus W) = window_features W"
  by (simp add: window_features_def Let_def KSM1_uminus[OF assms] nd_map_nd_map)













section \<open>Windows at least as long as the channel count\<close>

text \<open>
  A signal with at least \<open>winsize\<close> rows, positive \<open>winsize\<close> and \<open>wininc\<close>, and no more
  channels than \<open>winsize\<close> (sizes within the range of exact doubles): the call returns a
  rectangular feature matrix of \<open>floor((rows - winsize) / wininc) + 1\<close> rows and
  \<open>channels * 6\<close> columns, and row \<open>i\<close> is computed from rows
  \<open>[i * wininc, i * wininc + winsize)\<close> of the signal as
  \<open>- 2 * efp * ebp - (efp\<^sup>2 + ebp\<^sup>2)\<close>, with \<open>ebp = KSM1 curwin\<close> and
  \<open>efp = KSM1 (log (curwin\<^sup>2 + eps))\<close>.
\<close>

lemma feature_matrix_shape:
  assumes "x0 < length h"
    and "0 < winsize" "0 < wininc" "winsize \<le> int (nrows (h ! x0))"
    and "int (ncols (h ! x0)) \<le> winsize"
    and "int (nrows (h ! x0)) < 2 ^ 53" "wininc < 2 ^ 53"
  shows "\<exists>F. returned (getTDPSDfeatv3 dq x0 (winsize # wininc # rest) h) = Inr F \<and>
           int (nrows F) = (int (nrows (h ! x0)) - winsize) div wininc + 1 \<and>
           ncols F = ncols (h ! x0) * 6 \<and> wf_ndarray F"
proof -
  let ?nw = "(int (nrows (h ! x0)) - winsize) div wininc + 1"
  have "window_count dq (int (nrows (h ! x0)) - winsize) wininc = Inr ?nw"
    using assms(2,3,4,6,7) by (intro window_count_exact) simp_all
  from getTDPSDfeatv3_windows[OF assms(2-5) this, of rest]
  obtain h' where call: "getTDPSDfeatv3 dq x0 (winsize # wininc # rest) h = (Inr (Suc (length h)), h')"
    and c: "ncols (h' ! Suc (length h)) = ncols (h ! x0) * 6"
    and r: "int (nrows (h' ! Suc (length h))) = ?nw"
    and rows: "\<And>i. int i < ?nw \<Longrightarrow> arows (h' ! Suc (length h)) ! i =
                window_features (NDArray (ncols (h ! x0))
                  (take (nat winsize) (drop (i * nat wininc) (arows (h ! x0)))))"
    by blast
  let ?F = "h' ! Suc (length h)"
  have "length (arows ?F ! i) = ncols ?F" if "i < length (arows ?F)" for i
  proof -
    have i: "int i < ?nw" using that r by (simp add: nrows_def)
    let ?W = "NDArray (ncols (h ! x0)) (take (nat winsize) (drop (i * nat wininc) (arows (h ! x0))))"
    have "nrows ?W = nat winsize"
      using window_slice(2)[OF assms(2,3,4) i] by (simp add: nrows_def)
    moreover have "ncols ?W \<le> nat winsize" using assms(5) by simp
    ultimately have "\<not> nrows ?W < ncols ?W" by linarith
    then have "orient ?W = ?W" unfolding orient_def by (simp only: if_False)
    then show ?thesis unfolding rows[OF i] c by (simp add: length_window_features)
  qed
  then have "wf_ndarray ?F" by (simp add: wf_ndarray_def list_all_length)
  moreover have "returned (getTDPSDfeatv3 dq x0 (winsize # wininc # rest) h) = Inr ?F"
    unfolding call by (simp add: returned_def)
  ultimately show ?thesis using c r by blast
qed

lemma window_feature_rows:
  assumes "x0 < length h"
    and "0 < winsize" "0 < wininc" "winsize \<le> int (nrows (h ! x0))"
    and "int (ncols (h ! x0)) \<le> winsize"
    and "int i < (int (nrows (h ! x0)) - winsize) div wininc + 1"
    and "int (nrows (h ! x0)) < 2 ^ 53" "wininc < 2 ^ 53"
  shows "\<exists>F. returned (getTDPSDfeatv3 dq x0 (winsize # wininc # rest) h) = Inr F \<and>
     (let curwin = NDArray (ncols (h ! x0))
                     (take (nat winsize) (drop (i * nat wininc) (arows (h ! x0))));
          ebp = KSM1 curwin;
          efp = KSM1 (nd_map (\<lambda>v. ln (v\<^sup>2 + spacing_1)) curwin)
      in length ebp = ncols (h ! x0) * 6 \<and> length efp = ncols (h ! x0) * 6 \<and>
         length (arows F ! i) = ncols (h ! x0) * 6 \<and>
         (\<forall>j < ncols (h ! x0) * 6.
            arows F ! i ! j = - 2 * (efp ! j) * (ebp ! j) - ((efp ! j)\<^sup>2 + (ebp ! j)\<^sup>2)))"
proof -
  let ?nw = "(int (nrows (h ! x0)) - winsize) div wininc + 1"
  let ?W = "NDArray (ncols (h ! x0)) (take (nat winsize) (drop (i * nat wininc) (arows (h ! x0))))"
  have "window_count dq (int (nrows (h ! x0)) - winsize) wininc = Inr ?nw"
    using assms(2,3,4,7,8) by (intro window_count_exact) simp_all
  from getTDPSDfeatv3_windows[OF assms(2-5) this, of rest]
  obtain h' where call: "getTDPSDfeatv3 dq x0 (winsize # wininc # rest) h = (Inr (Suc (length h)), h')"
    and rows: "\<And>i. int i < ?nw \<Longrightarrow> arows (h' ! Suc (length h)) ! i =
                window_features (NDArray (ncols (h ! x0))
                  (take (nat winsize) (drop (i * nat wininc) (arows (h ! x0)))))"
    by blast
  let ?F = "h' ! Suc (length h)"
  have row: "arows ?F ! i = window_features ?W" by (rule rows[OF assms(6)])
  have "nrows ?W = nat winsize"
    using window_slice(2)[OF assms(2,3,4,6)] by (simp add: nrows_def)
  moreover have "ncols ?W \<le> nat winsize" using assms(5) by simp
  ultimately have "\<not> nrows ?W < ncols ?W" by linarith
  then have "orient ?W = ?W" unfolding orient_def by (simp only: if_False)
  then have c: "ncols (orient ?W) = ncols (h ! x0)" by simp
  have "length (KSM1 ?W) = ncols (h ! x0) * 6" by (simp add: length_KSM1 c)
  moreover have "length (KSM1 (nd_map (\<lambda>v. ln (v\<^sup>2 + spacing_1)) ?W)) = ncols (h ! x0) * 6"
    by (simp add: length_KSM1 shape_orient_nd_map c)
  moreover have "length (arows ?F ! i) = ncols (h ! x0) * 6"
    unfolding row by (simp add: length_window_features c)
  moreover have "arows ?F ! i ! j =
      - 2 * (KSM1 (nd_map (\<lambda>v. ln (v\<^sup>2 + spacing_1)) ?W) ! j) * (KSM1 ?W ! j)
      - ((KSM1 (nd_map (\<lambda>v. ln (v\<^sup>2 + spacing_1)) ?W) ! j)\<^sup>2 + (KSM1 ?W ! j)\<^sup>2)"
    if "j < ncols (h ! x0) * 6" for j
    unfolding row using that by (intro window_features_nth) (simp add: c)
  moreover have "returned (getTDPSDfeatv3 dq x0 (winsize # wininc # rest) h) = Inr ?F"
    unfolding call by (simp add: returned_def)
  ultimately show ?thesis unfolding Let_def by blast
qed

text \<open>
  The scenario of the six samples \<open>1, \<dots>, 6\<close> of one channel with \<open>winsize = 4\<close> and
  \<open>wininc = 2\<close>: row 0 comes from \<open>[1, 2, 3, 4]\<close> and row 1 from \<open>[3, 4, 5, 6]\<close>.
\<close>

lemma scenario_one_rows:
  "(\<exists>F. returned (getTDPSDfeatv3 dq 0 [4, 2] [NDArray 1 [[1], [2], [3], [4], [5], [6]]]) = Inr F \<and>
     (let curwin = NDArray 1 [[1], [2], [3], [4]];
          ebp = KSM1 curwin;
          efp = KSM1 (nd_map (\<lambda>v. ln (v\<^sup>2 + spacing_1)) curwin)
      in length ebp = 6 \<and> length efp = 6 \<and> length (arows F ! 0) = 6 \<and>
         (\<forall>j < 6. arows F ! 0 ! j = - 2 * (efp ! j) * (ebp ! j) - ((efp ! j)\<^sup>2 + (ebp ! j)\<^sup>2)))) \<and>
   (\<exists>F. returned (getTDPSDfeatv3 dq 0 [4, 2] [NDArray 1 [[1], [2], [3], [4], [5], [6]]]) = Inr F \<and>
     (let curwin = NDArray 1 [[3], [4], [5], [6]];
          ebp = KSM1 curwin;
          efp = KSM1 (nd_map (\<lambda>v. ln (v\<^sup>2 + spacing_1)) curwin)
      in length ebp = 6 \<and> length efp = 6 \<and> length (arows F ! 1) = 6 \<and>
         (\<forall>j < 6. arows F ! 1 ! j = - 2 * (efp ! j) * (ebp ! j) - ((efp ! j)\<^sup>2 + (ebp ! j)\<^sup>2))))"
  using window_feature_rows[where ?x0.0 = 0 and h = "[NDArray 1 [[1], [2], [3], [4], [5], [6]]]"
      and winsize = 4 and wininc = 2 and i = 0 and rest = "[]" and dq = dq]
    window_feature_rows[where ?x0.0 = 0 and h = "[NDArray 1 [[1], [2], [3], [4], [5], [6]]]"
      and winsize = 4 and wininc = 2 and i = 1 and rest = "[]" and dq = dq]
  by (simp add: nrows_def Let_def)

section \<open>The claims\<close>

text \<open>
  C1. The claim expects every window index below the window count to get its output row.
  At a signal of four samples of three channels with \<open>winsize = 2\<close> and \<open>wininc = 2\<close> the
  hypotheses of the claim hold, and the code sets no row: \<^verbatim>\<open>KSM1\<close> transposes the window of
  two samples of three channels, returns twelve values instead of eighteen, and the
  assignment to the row raises \<^verbatim>\<open>ValueError\<close>.
\<close>

theorem window_rows_wide_window_raises:
  "(0::int) < 2 \<and> (0::int) < 2 \<and>
   2 \<le> int (nrows (NDArray 3 [[1, 2, 3], [4, 5, 6], [7, 8, 9], [10, 11, 12]])) \<and>
   returned (getTDPSDfeatv3 (\<lambda>a b. None) 0 [2, 2]
               [NDArray 3 [[1, 2, 3], [4, 5, 6], [7, 8, 9], [10, 11, 12]]])
     = Inl ValueError"
proof -
  let ?h = "[NDArray 3 [[1, 2, 3], [4, 5, 6], [7, 8, 9], [10, 11, 12]]]"
  have "window_count (\<lambda>a b. None) (int (nrows (?h ! 0)) - 2) 2
          = Inr ((int (nrows (?h ! 0)) - 2) div 2 + 1)"
    by (intro window_count_exact) (simp_all add: nrows_def)
  from getTDPSDfeatv3_wide_window[where h = ?h and ?x0.0 = 0 and winsize = 2 and wininc = 2
      and rest = "[]", OF _ _ _ _ this]
  show ?thesis by (simp add: nrows_def returned_def)
qed

text \<open>
  C2. The claim expects a feature matrix of \<open>floor((rows - winsize) / wininc) + 1\<close> rows and
  \<open>channels * 6\<close> columns for every valid input. At a signal of two samples of three channels
  with \<open>winsize = 2\<close> and \<open>wininc = 1\<close> the hypotheses of the claim hold, and the code returns
  no matrix: it raises \<^verbatim>\<open>ValueError\<close>, for the reason given under C1.
\<close>

theorem feature_shape_wide_window_raises:
  "(0::int) < 2 \<and> (0::int) < 1 \<and> 2 \<le> int (nrows (NDArray 3 [[1, 2, 3], [4, 5, 6]])) \<and>
   returned (getTDPSDfeatv3 (\<lambda>a b. None) 0 [2, 1] [NDArray 3 [[1, 2, 3], [4, 5, 6]]])
     = Inl ValueError"
proof -
  let ?h = "[NDArray 3 [[1, 2, 3], [4, 5, 6]]]"
  have "window_count (\<lambda>a b. None) (int (nrows (?h ! 0)) - 2) 1
          = Inr ((int (nrows (?h ! 0)) - 2) div 1 + 1)"
    by (intro window_count_exact) (simp_all add: nrows_def)
  from getTDPSDfeatv3_wide_window[where h = ?h and ?x0.0 = 0 and winsize = 2 and wininc = 1
      and rest = "[]", OF _ _ _ _ this]
  show ?thesis by (simp add: nrows_def returned_def)
qed

text \<open>
  C4. \<^verbatim>\<open>KSM1\<close> returns the row-major flattening of the logarithm of the absolute value of
  the \<open>(6, channels)\<close> structure whose rows are, in this order, \<open>m0\<close>, \<open>m0 - m2\<close>,
  \<open>m0 - m4\<close>, the sparseness, the irregularity factor and the waveform length ratio: entry
  \<open>k * channels + c\<close> of the result is quantity \<open>k\<close> of channel \<open>c\<close>.
\<close>

theorem KSM1_row_major:
  "let S = orient S0;
       Q = NDArray (ncols S)
             [flatten (m0_of S),
              flatten (nd_zip (-) (m0_of S) (m2_of S)),
              flatten (nd_zip (-) (m0_of S) (m4_of S)),
              flatten (sparsi_of S),
              flatten (IRF_of S),
              flatten (WLR_of S)]
   in wf_ndarray Q \<and> nrows Q = 6 \<and>
      KSM1 S0 = flatten (nd_map (\<lambda>v. ln \<bar>v\<bar>) Q) \<and>
      (\<forall>k < 6. \<forall>c < ncols S. KSM1 S0 ! (k * ncols S + c) = ln \<bar>arows Q ! k ! c\<bar>)"
  unfolding Let_def
  using KSM1_stack(1)[of S0] KSM1_stack(2)[of S0] KSM1_stack(3)[of S0] KSM1_stack(4)[of _ _ S0]
  by blast

theorem KSM1_row_major_witness:
  "KSM1 (NDArray 2 [[1, 2], [3, 5], [4, 4]]) ! 3 =
     ln \<bar>flatten (nd_zip (-) (m0_of (NDArray 2 [[1, 2], [3, 5], [4, 4]]))
                              (m2_of (NDArray 2 [[1, 2], [3, 5], [4, 4]]))) ! 1\<bar>"
proof -
  let ?W = "NDArray 2 [[1, 2], [3, 5], [4, 4]]"
  have o: "orient ?W = ?W" by (simp add: orient_def nrows_def)
  note t = KSM1_row_major[of ?W, unfolded Let_def o]
  note a = t[THEN conjunct2, THEN conjunct2, THEN conjunct2, rule_format, of 1 1]
  show ?thesis using a by simp
qed

text \<open>
  C3. On a window of \<open>samples\<close> rows (after the orientation step), \<open>m2\<close> of a channel is
  \<open>(sqrt (sum (d1\<^sup>2) / (samples - 1)))\<^sup>0\<^sup>.\<^sup>1 / 0.1\<close> for the first difference \<open>d1\<close>, and
  \<open>m4\<close> is the same formula on the second difference \<open>d2\<close>, with the same divisor
  \<open>samples - 1\<close>; these are the values that enter the entries \<open>m0 - m2\<close> and \<open>m0 - m4\<close> of
  the result. In the witness, three samples \<open>0, 1, 3\<close> have the one second difference \<open>1\<close>,
  and \<open>m4\<close> is computed from \<open>1 / 2\<close>, not from \<open>1 / 1\<close>.
\<close>

theorem moments_divisor:
  assumes "wf_ndarray S0" "c < ncols (orient S0)"
  shows "let S = orient S0
         in flatten (m2_of S) ! c = m2_spec S c \<and>
            flatten (m4_of S) ! c = m4_spec S c \<and>
            KSM1 S0 ! (1 * ncols S + c) = ln \<bar>flatten (m0_of S) ! c - m2_spec S c\<bar> \<and>
            KSM1 S0 ! (2 * ncols S + c) = ln \<bar>flatten (m0_of S) ! c - m4_spec S c\<bar>"
proof -
  have w: "wf_ndarray (orient S0)" using assms(1) by (rule wf_orient)
  show ?thesis
    unfolding Let_def
    using m2_of_nth[OF w assms(2)] m4_of_nth[OF w assms(2)]
      KSM1_difference_entry[OF assms(2)]
    by simp
qed

theorem moments_divisor_witness:
  "flatten (m2_of (NDArray 1 [[0], [1], [3]])) ! 0 = sqrt (5 / 2) powr 0.1 / 0.1 \<and>
   flatten (m4_of (NDArray 1 [[0], [1], [3]])) ! 0 = sqrt (1 / 2) powr 0.1 / 0.1"
proof -
  let ?W = "NDArray 1 [[0], [1], [3]]"
  have o: "orient ?W = ?W" by (simp add: orient_def nrows_def)
  have w: "wf_ndarray ?W" by (simp add: wf_ndarray_def)
  have c: "0 < ncols (orient ?W)" unfolding o by simp
  note t = moments_divisor[OF w c, unfolded Let_def o]
  have "m2_spec ?W 0 = sqrt (5 / 2) powr 0.1 / 0.1"
    by (simp add: m2_spec_def nrows_def numeral_2_eq_2)
  moreover have "m4_spec ?W 0 = sqrt (1 / 2) powr 0.1 / 0.1"
    by (simp add: m4_spec_def nrows_def)
  ultimately show ?thesis using t by simp
qed

text \<open>
  C5. A call with fewer than two sliding-window parameters raises the error of the
  argument-count check (a \<^verbatim>\<open>TypeError\<close>), and a call with two or more parameters never raises
  that error.
\<close>

theorem argument_count_check:
  "(returned (getTDPSDfeatv3 dq x0 ps h) = Inl TypeError) = (length ps < 2)"
proof (cases "length ps < 2")
  case True
  then show ?thesis by (simp add: getTDPSDfeatv3_unfold returned_def)
next
  case False
  let ?X = "h ! x0"
  have "returned (getTDPSDfeatv3 dq x0 ps h) \<noteq> Inl TypeError"
  proof (cases "window_count dq (int (nrows ?X) - ps ! 0) (ps ! 1)")
    case (Inl e)
    then have "e \<noteq> TypeError" using window_count_not_TypeError by metis
    then show ?thesis using False Inl by (simp add: getTDPSDfeatv3_unfold returned_def)
  next
    case (Inr n)
    let ?loop = "window_loop (nat n) 0 0 (ps ! 0) (ps ! 1) (length h) (Suc (length h))
                   ((h @ [?X]) @ [zeros (nat n) (ncols ?X * 6)])"
    have "fst ?loop \<noteq> Inl TypeError" by (rule window_loop_not_TypeError)
    then show ?thesis
      using False Inr unfolding getTDPSDfeatv3_unfold returned_def
      by (cases ?loop) (auto split: sum.splits)
  qed
  then show ?thesis using False by simp
qed

theorem argument_count_check_witness:
  "returned (getTDPSDfeatv3 (\<lambda>a b. None) 0 [4] [NDArray 1 [[1], [2], [3], [4], [5], [6]]]) = Inl TypeError \<and>
   returned (getTDPSDfeatv3 (\<lambda>a b. None) 0 [4, 2] [NDArray 1 [[1], [2], [3], [4], [5], [6]]]) \<noteq> Inl TypeError"
  using argument_count_check[where ?x0.0 = 0 and ps = "[4]" and h = "[NDArray 1 [[1], [2], [3], [4], [5], [6]]]"
      and dq = "(\<lambda>a b. None)"]
    argument_count_check[where ?x0.0 = 0 and ps = "[4, 2]" and h = "[NDArray 1 [[1], [2], [3], [4], [5], [6]]]"
      and dq = "(\<lambda>a b. None)"]
  by simp

text \<open>
  C8 (as amended). Let the window count of line 59 be computed without error. When it is
  zero, the call returns a feature matrix without rows; when it is negative, the call raises
  \<^verbatim>\<open>ValueError\<close>, as \<^verbatim>\<open>np.zeros\<close> refuses a negative row count. The count is
  \<open>floor((datasize - winsize) / wininc) + 1\<close> whenever \<open>\<bar>datasize - winsize\<bar>\<close> and \<open>\<bar>wininc\<bar>\<close>
  are below \<open>2\<^sup>5\<^sup>3\<close>. The counterexample is a signal of two samples with \<open>winsize = 5\<close> and
  \<open>wininc = 1\<close>, whose window count is \<open>- 2\<close>.
\<close>

theorem degenerate_window_count:
  assumes "x0 < length h"
    and "window_count dq (int (nrows (h ! x0)) - winsize) wininc = Inr n"
  shows "(n = 0 \<longrightarrow>
            returned (getTDPSDfeatv3 dq x0 (winsize # wininc # rest) h)
              = Inr (NDArray (ncols (h ! x0) * 6) [])) \<and>
         (n < 0 \<longrightarrow>
            returned (getTDPSDfeatv3 dq x0 (winsize # wininc # rest) h) = Inl ValueError) \<and>
         (\<bar>int (nrows (h ! x0)) - winsize\<bar> < 2 ^ 53 \<and> \<bar>wininc\<bar> < 2 ^ 53 \<longrightarrow>
            n = (int (nrows (h ! x0)) - winsize) div wininc + 1)"
proof -
  have "n = (int (nrows (h ! x0)) - winsize) div wininc + 1"
    if "\<bar>int (nrows (h ! x0)) - winsize\<bar> < 2 ^ 53 \<and> \<bar>wininc\<bar> < 2 ^ 53"
    using that assms(2) by (simp add: window_count_def split: if_splits)
  then show ?thesis
    using assms(2) by (simp add: getTDPSDfeatv3_unfold returned_def zeros_def nth_append)
qed

theorem degenerate_window_count_witness:
  "returned (getTDPSDfeatv3 (\<lambda>a b. None) 0 [3, 1] [NDArray 1 [[1], [2]]]) = Inr (NDArray 6 []) \<and>
   returned (getTDPSDfeatv3 (\<lambda>a b. None) 0 [7, 2] [NDArray 1 [[1], [2]]]) = Inl ValueError \<and>
   (int (nrows (NDArray 1 [[1], [2]])) - 3) div 1 + 1 = 0 \<and>
   (int (nrows (NDArray 1 [[1], [2]])) - 7) div 2 + 1 = - 2"
proof -
  let ?h = "[NDArray 1 [[1], [2]]]"
  have a: "window_count (\<lambda>a b. None) (int (nrows (?h ! 0)) - 3) 1 = Inr 0"
    and b: "window_count (\<lambda>a b. None) (int (nrows (?h ! 0)) - 7) 2 = Inr (- 2)"
    by (simp_all add: window_count_def nrows_def)
  have l: "0 < length ?h" by simp
  from degenerate_window_count[OF l a, of "[]"] degenerate_window_count[OF l b, of "[]"]
  show ?thesis by (simp add: nrows_def)
qed

theorem degenerate_window_count_counterexample:
  "window_count (\<lambda>a b. None) (int (nrows (NDArray 1 [[1], [2]])) - 5) 1 = Inr (- 2) \<and>
   returned (getTDPSDfeatv3 (\<lambda>a b. None) 0 [5, 1] [NDArray 1 [[1], [2]]]) = Inl ValueError"
  by (simp add: getTDPSDfeatv3_unfold returned_def nrows_def window_count_def)

text \<open>
  C9. A call does not change the caller's array, nor any other array that existed before
  the call: the heap after the call extends the heap before it. The same holds after a
  second call on the same array, which hands back the same result as the first.
\<close>

theorem input_unchanged:
  assumes "x0 < length h"
    and "getTDPSDfeatv3 dq x0 ps h = (r, h')"
    and "getTDPSDfeatv3 dq x0 ps h' = (r', h'')"
  shows "h' ! x0 = h ! x0 \<and> take (length h) h' = h \<and>
         h'' ! x0 = h ! x0 \<and> take (length h) h'' = h \<and>
         returned (r', h'') = returned (r, h')"
proof -
  have 1: "take (length h) h' = h" using assms(2) by (rule getTDPSDfeatv3_frame)
  have 2: "take (length h') h'' = h'" using assms(3) by (rule getTDPSDfeatv3_frame)
  have "length (take (length h) h') = length h" using 1 by simp
  then have l: "length h \<le> length h'" by simp
  have x: "h' ! x0 = h ! x0" using 1 assms(1) by (metis nth_take)
  have 3: "take (length h) h'' = h" using 1 2 l by (metis min.absorb1 take_take)
  have x2: "h'' ! x0 = h ! x0" using 3 assms(1) by (metis nth_take)
  have "returned (getTDPSDfeatv3 dq x0 ps h') = returned (getTDPSDfeatv3 dq x0 ps h)"
    by (rule getTDPSDfeatv3_cong) (simp_all add: x)
  then show ?thesis using 1 3 x x2 assms(2,3) by simp
qed

theorem input_unchanged_witness:
  "snd (getTDPSDfeatv3 (\<lambda>a b. None) 0 [4, 2] [NDArray 1 [[1], [2], [3], [4], [5], [6]]]) ! 0
     = NDArray 1 [[1], [2], [3], [4], [5], [6]] \<and>
   snd (getTDPSDfeatv3 (\<lambda>a b. None) 0 [4, 2]
          (snd (getTDPSDfeatv3 (\<lambda>a b. None) 0 [4, 2] [NDArray 1 [[1], [2], [3], [4], [5], [6]]]))) ! 0
     = NDArray 1 [[1], [2], [3], [4], [5], [6]]"
proof -
  let ?h = "[NDArray 1 [[1], [2], [3], [4], [5], [6]]]"
  let ?c1 = "getTDPSDfeatv3 (\<lambda>a b. None) 0 [4, 2] ?h"
  let ?c2 = "getTDPSDfeatv3 (\<lambda>a b. None) 0 [4, 2] (snd ?c1)"
  have l: "0 < length ?h" by simp
  have 1: "?c1 = (fst ?c1, snd ?c1)" and 2: "?c2 = (fst ?c2, snd ?c2)" by simp_all
  from input_unchanged[OF l 1 2] show ?thesis by simp
qed

text \<open>
  C7. A window with fewer rows than columns is transposed before the features are
  computed; a window and its transpose give the same result whenever the row count differs
  from the column count; a square window is left as it is.
\<close>

theorem orientation_invariance:
  assumes "wf_ndarray S"
  shows "KSM1 S = KSM1 (orient S) \<and>
         (nrows S < ncols S \<longrightarrow> orient S = transpose_nd S) \<and>
         (nrows S \<noteq> ncols S \<longrightarrow> KSM1 (transpose_nd S) = KSM1 S) \<and>
         (nrows S = ncols S \<longrightarrow> orient S = S)"
proof -
  have "KSM1 (transpose_nd S) = KSM1 S" if "nrows S \<noteq> ncols S"
  proof (cases "nrows S < ncols S")
    case True
    then have "orient (transpose_nd S) = transpose_nd S" "orient S = transpose_nd S"
      by (simp_all add: orient_def nrows_simps ncols_simps)
    then show ?thesis by (simp add: KSM1_def)
  next
    case False
    then have "ncols S < nrows S" using that by simp
    then have "orient (transpose_nd S) = transpose_nd (transpose_nd S)" "orient S = S"
      by (simp_all add: orient_def nrows_simps ncols_simps)
    then show ?thesis using assms by (simp add: KSM1_def transpose_nd_involution)
  qed
  then show ?thesis by (simp add: KSM1_orient orient_def)
qed


theorem orientation_invariance_witness:
  "orient (NDArray 3 [[1, 2, 3], [4, 5, 6]]) = NDArray 2 [[1, 4], [2, 5], [3, 6]] \<and>
   KSM1 (NDArray 2 [[1, 4], [2, 5], [3, 6]]) = KSM1 (NDArray 3 [[1, 2, 3], [4, 5, 6]]) \<and>
   orient (NDArray 2 [[1, 2], [3, 4]]) = NDArray 2 [[1, 2], [3, 4]]"
proof -
  let ?A = "NDArray 3 [[1, 2, 3], [4, 5, 6]]" and ?B = "NDArray 2 [[1, 2], [3, 4]]"
  have wA: "wf_ndarray ?A" and wB: "wf_ndarray ?B" by (simp_all add: wf_ndarray_def)
  have u: "[0..<3] = [0, 1, 2]" by code_simp
  have t: "transpose_nd ?A = NDArray 2 [[1, 4], [2, 5], [3, 6]]"
    by (simp add: transpose_nd_def nrows_def u)
  have sA: "nrows ?A < ncols ?A" "nrows ?A \<noteq> ncols ?A" by (simp_all add: nrows_def)
  have sB: "nrows ?B = ncols ?B" by (simp add: nrows_def)
  note a = orientation_invariance[OF wA] and b = orientation_invariance[OF wB]
  have "orient ?A = transpose_nd ?A" using a sA(1) by blast
  moreover have "KSM1 (transpose_nd ?A) = KSM1 ?A" using a sA(2) by blast
  moreover have "orient ?B = ?B" using b sB by blast
  ultimately show ?thesis unfolding t by blast
qed

text \<open>
  C10. \<^verbatim>\<open>KSM1\<close> returns the same feature vector on \<open>- S\<close> as on \<open>S\<close>, and a call of
  \<^verbatim>\<open>getTDPSDfeatv3\<close> on \<open>- x\<close> hands back what the call on \<open>x\<close> hands back.
\<close>

theorem sign_invariance:
  assumes "wf_ndarray S" "x0 < length h" "wf_ndarray (h ! x0)"
  shows "KSM1 (nd_map uminus S) = KSM1 S \<and>
         returned (getTDPSDfeatv3 dq x0 ps (h[x0 := nd_map uminus (h ! x0)]))
           = returned (getTDPSDfeatv3 dq x0 ps h)"
proof -
  let ?h = "h[x0 := nd_map uminus (h ! x0)]"
  have x: "?h ! x0 = nd_map uminus (h ! x0)" using assms(2) by simp
  have "returned (getTDPSDfeatv3 dq x0 ps ?h) = returned (getTDPSDfeatv3 dq x0 ps h)"
  proof (rule getTDPSDfeatv3_cong)
    show "nrows (?h ! x0) = nrows (h ! x0)" unfolding x by (simp add: nrows_simps)
    show "ncols (?h ! x0) = ncols (h ! x0)" unfolding x by (simp add: ncols_simps)
    fix a b
    have "wf_ndarray (slice_rows (h ! x0) a b)" using assms(3) by (rule wf_slice_rows)
    then show "window_features (slice_rows (?h ! x0) a b) = window_features (slice_rows (h ! x0) a b)"
      unfolding x slice_rows_nd_map by (rule window_features_uminus)
  qed
  then show ?thesis using KSM1_uminus[OF assms(1)] by simp
qed

theorem sign_invariance_witness:
  "KSM1 (NDArray 2 [[- 1, - 2], [- 3, - 5], [- 4, - 4]]) = KSM1 (NDArray 2 [[1, 2], [3, 5], [4, 4]]) \<and>
   returned (getTDPSDfeatv3 (\<lambda>a b. None) 0 [4, 2] [NDArray 1 [[- 1], [- 2], [- 3], [- 4], [- 5], [- 6]]])
     = returned (getTDPSDfeatv3 (\<lambda>a b. None) 0 [4, 2] [NDArray 1 [[1], [2], [3], [4], [5], [6]]])"
  using sign_invariance[where S = "NDArray 2 [[1, 2], [3, 5], [4, 4]]" and ?x0.0 = 0
      and h = "[NDArray 1 [[1], [2], [3], [4], [5], [6]]]" and ps = "[4, 2]" and dq = "(\<lambda>a b. None)"]
  by (simp add: wf_ndarray_def nd_map_def)




end
